theory Spec2Isabelle
  imports Main "HOL-Library.Sublist"
begin

section \<open>Python string primitives used by the uploader\<close>

text \<open>
  Python strings are modelled as \<open>string\<close> (lists of 8-bit characters). \<open>str_int\<close> is
  the decimal text of an \<open>int\<close> (a leading minus sign for negatives), used as it is where
  the number is a list length or the return code of a process, which the operating system
  keeps within a machine word; \<open>str_join\<close> is \<open>sep.join(xs)\<close> on strings; \<open>strip\<close> is
  \<open>str.strip()\<close> with Python's whitespace characters below code 256.
\<close>

definition digit_char :: "nat \<Rightarrow> char" where
  "digit_char d = ''0123456789'' ! d"

fun str_nat :: "nat \<Rightarrow> string" where
  "str_nat n = (if n < 10 then [digit_char n] else str_nat (n div 10) @ [digit_char (n mod 10)])"

declare str_nat.simps [simp del]

definition str_int :: "int \<Rightarrow> string" where
  "str_int i = (if i < 0 then CHR ''-'' # str_nat (nat (- i)) else str_nat (nat i))"

text \<open>
  \<open>str\<close> on an \<open>int\<close> of arbitrary size raises \<open>ValueError\<close> when the number has more
  digits than the interpreter's limit (4300 unless it is reconfigured); \<open>Inl\<close> carries the
  text of the exception.
\<close>

definition int_max_str_digits :: nat where
  "int_max_str_digits = 4300"

definition py_str :: "int \<Rightarrow> string + string" where
  "py_str i =
    (if int_max_str_digits < length (str_nat (nat \<bar>i\<bar>)) then
       Inl (''Exceeds the limit (4300 digits) for integer string conversion; '' @
            ''use sys.set_int_max_str_digits() to increase the limit'')
     else Inr (str_int i))"

fun str_join :: "string \<Rightarrow> string list \<Rightarrow> string" where
  "str_join sep [] = []"
| "str_join sep [x] = x"
| "str_join sep (x # y # ys) = x @ sep @ str_join sep (y # ys)"

text \<open>
  A value that is not known to be a string: what \<open>json.load\<close> or \<open>Response.json()\<close> can
  return. A number with a fraction is kept as its text; an object is the list of its
  members in file order, and a later member overrides an earlier one with the same key,
  as in the dictionary Python builds.
\<close>

datatype json =
  JNull | JBool bool | JInt int | JFloat string | JStr string
  | JList "json list" | JDict "(string \<times> json) list"

fun type_name :: "json \<Rightarrow> string" where
  "type_name JNull = ''NoneType''"
| "type_name (JBool b) = ''bool''"
| "type_name (JInt i) = ''int''"
| "type_name (JFloat f) = ''float''"
| "type_name (JStr s) = ''str''"
| "type_name (JList xs) = ''list''"
| "type_name (JDict d) = ''dict''"

text \<open>
  \<open>sep.join(xs)\<close> on a list of values: the first item that is no string raises
  \<open>TypeError\<close>. \<open>str_items i xs\<close> returns the strings of \<open>xs\<close>, whose first item has
  index \<open>i\<close>, or the text of the exception.
\<close>

fun str_items :: "nat \<Rightarrow> json list \<Rightarrow> string + string list" where
  "str_items i [] = Inr []"
| "str_items i (JStr s # xs) =
     (case str_items (i + 1) xs of Inl e \<Rightarrow> Inl e | Inr ss \<Rightarrow> Inr (s # ss))"
| "str_items i (v # xs) =
     Inl (''sequence item '' @ str_nat i @ '': expected str instance, '' @ type_name v @ '' found'')"

definition py_join :: "string \<Rightarrow> json list \<Rightarrow> string + string" where
  "py_join sep xs = (case str_items 0 xs of Inl e \<Rightarrow> Inl e | Inr ss \<Rightarrow> Inr (str_join sep ss))"

definition isspace :: "char \<Rightarrow> bool" where
  "isspace c = (let n = (of_char c :: nat) in
     (9 \<le> n \<and> n \<le> 13) \<or> (28 \<le> n \<and> n \<le> 32) \<or> n = 133 \<or> n = 160)"

definition strip :: "string \<Rightarrow> string" where
  "strip s = rev (dropWhile isspace (rev (dropWhile isspace s)))"

section \<open>The worker: \<open>run_upload_mp\<close>\<close>

text \<open>
  The \<open>args\<close> dictionary is built in one place only (\<open>_launch_upload_job\<close>), always with
  the same twelve keys, so it is a record. The string-valued entries come from
  \<open>StringVar.get()\<close>, the flags from \<open>BooleanVar.get()\<close>, \<open>multi_face_policy\<close> from
  \<open>IntVar.get()\<close>. \<open>list_id\<close> is either the string of a \<open>StringVar\<close> or the value the
  list service sent for the selected list, taken as it came: it need not be a string.
\<close>

record args =
  script_path :: string
  folder_path :: string
  username :: string
  password :: string
  source :: string
  descriptor :: string
  origin :: string
  avatar :: string
  list_id :: json
  warped :: bool
  name_as_userdata :: bool
  multi_face_policy :: int

text \<open>The tuples put on the output queue: \<open>(msg_type, msg)\<close> with four message types.\<close>

datatype msg = Output string | Error string | Status string | Finished

text \<open>
  The command line, as the list literal \<open>cmd\<close> of \<open>run_upload_mp\<close>;
  \<open>python_exec\<close> is \<open>sys.executable\<close>. Building the list raises when
  \<open>str(args['multi_face_policy'])\<close> does (\<open>str\<close> of the descriptor and of the avatar is
  \<open>str\<close> of a string). The list holds \<open>list_id\<close> as it is, string or not.
\<close>

definition cmd :: "string \<Rightarrow> args \<Rightarrow> string + json list" where
  "cmd python_exec a =
    (case py_str (multi_face_policy a) of
       Inl e \<Rightarrow> Inl e
     | Inr policy \<Rightarrow>
        Inr [JStr python_exec, JStr (script_path a),
             JStr ''--login'', JStr (username a),
             JStr ''--password'', JStr (password a),
             JStr ''--source'', JStr (source a),
             JStr ''--warped'', JStr (if warped a then ''1'' else ''0''),
             JStr ''--name_as_userdata'', JStr (if name_as_userdata a then ''1'' else ''0''),
             JStr ''--descriptor'', JStr (descriptor a),
             JStr ''--origin'', JStr (origin a),
             JStr ''--avatar'', JStr (avatar a),
             JStr ''--list_id'', list_id a,
             JStr ''--multi_face_policy'', JStr policy,
             JStr ''--basic_attr'', JStr ''1'',
             JStr ''--score_threshold'', JStr ''0.0'',
             JStr ''--list_linked'', JStr ''1''])"

text \<open>
  What the operating system does with the command is the input \<open>popen\<close> of the model:
  \<open>Popen\<close> raises (with the text of the exception); or the process starts and reading its
  output raises after some lines (whatever the process does then, the worker does not
  wait for it); or the process starts, its lines are read to the end and it exits with a
  return code.
\<close>

datatype popen = PopenRaises string | ReadRaises "string list" string | Exits "string list" int

text \<open>The read loop: one \<open>output\<close> message per non-empty line, stripped.\<close>

definition read_lines :: "string list \<Rightarrow> msg list" where
  "read_lines ls = map (\<lambda>line. Output (strip line)) (filter (\<lambda>line. line \<noteq> []) ls)"

definition exit_status :: "int \<Rightarrow> string" where
  "exit_status returncode =
    (if returncode = 0 then ''Upload completed successfully!''
     else ''Upload failed with code '' @ str_int returncode)"

text \<open>
  \<open>run_upload_mp\<close> returns the messages it puts on the queue, in order. The command list
  is built before anything is put; the folder line is put next; joining the command for
  the second line raises when an item is no string. Only then is the process started, and
  \<open>popen\<close> is looked at. The \<open>chmod\<close> of the script (whose failure is swallowed) puts
  nothing on the queue. The \<open>except\<close> clause turns any exception into one \<open>error\<close>
  message; the \<open>finally\<close> clause puts \<open>finished\<close>.
\<close>

definition after_spawn :: "popen \<Rightarrow> msg list" where
  "after_spawn p =
    (case p of
       PopenRaises e \<Rightarrow> [Error (''Error running upload: '' @ e)]
     | ReadRaises ls e \<Rightarrow> read_lines ls @ [Error (''Error running upload: '' @ e)]
     | Exits ls returncode \<Rightarrow> read_lines ls @ [Status (exit_status returncode)])"

definition run_upload_mp :: "string \<Rightarrow> args \<Rightarrow> popen \<Rightarrow> msg list" where
  "run_upload_mp python_exec a p =
    (case cmd python_exec a of
       Inl e \<Rightarrow> [Error (''Error running upload: '' @ e)]
     | Inr c \<Rightarrow>
        Output (''Starting upload from: '' @ folder_path a) #
        (case py_join '' '' c of
           Inl e \<Rightarrow> [Error (''Error running upload: '' @ e)]
         | Inr line \<Rightarrow> Output (''Command: '' @ line) # after_spawn p)) @
    [Finished]"

fun is_status :: "msg \<Rightarrow> bool" where
  "is_status (Status s) = True"
| "is_status m = False"

fun is_output :: "msg \<Rightarrow> bool" where
  "is_output (Output s) = True"
| "is_output m = False"

section \<open>Jobs and the application state\<close>

text \<open>
  \<open>job['process']\<close> is the handle of the worker process that runs \<open>run_upload_mp\<close>. The
  model keeps of it what the application reads and writes: the configuration it was
  started with, what \<open>is_alive()\<close> returns, and whether \<open>terminate()\<close> has been called
  on it.
\<close>

record process =
  target_args :: args
  is_alive :: bool
  terminated :: bool

text \<open>
  A job is the dictionary \<open>{'process', 'queue', 'folder', 'list_id', 'status'}\<close>;
  \<open>queue\<close> holds the messages that \<open>get_nowait\<close> can return now, oldest first.
\<close>

record job =
  process :: process
  queue :: "msg list"
  folder :: string
  job_list_id :: json
  status :: string

text \<open>
  Of the application object the model keeps the job list, the lines passed to
  \<open>log_message\<close> (without the clock prefix that \<open>log_message\<close> adds), the status line,
  whether the progress bar runs, whether the Stop All button is enabled, the texts of
  the error dialogs shown, and how many invocations of \<open>monitor_all_outputs\<close> have been
  scheduled with \<open>root.after\<close>. The rendering of the job list box
  (\<open>update_joblist_ui\<close>) changes none of these and is left out.
\<close>

record app =
  jobs :: "job list"
  log_text :: "string list"
  status_var :: string
  progress_running :: bool
  stop_btn_enabled :: bool
  errors_shown :: "string list"
  after_scheduled :: nat

subsection \<open>\<open>monitor_all_outputs\<close>\<close>

text \<open>One iteration of the \<open>while True\<close> loop: dispatch on the message type.\<close>

fun handle_msg :: "msg \<Rightarrow> job \<times> string \<times> string list \<Rightarrow> job \<times> string \<times> string list" where
  "handle_msg (Output m) (j, sv, lg) = (j, sv, lg @ [''['' @ folder j @ ''] '' @ m])"
| "handle_msg (Error m) (j, sv, lg) = (j, sv, lg @ [''ERROR ['' @ folder j @ '']: '' @ m])"
| "handle_msg (Status m) (j, sv, lg) =
     (j\<lparr>status := m\<rparr>, m, lg @ [''STATUS ['' @ folder j @ '']: '' @ m])"
| "handle_msg Finished (j, sv, lg) = (j\<lparr>status := ''Finished''\<rparr>, sv, lg)"

text \<open>The loop runs until \<open>get_nowait\<close> raises \<open>Empty\<close>: every queued message is handled.\<close>

fun drain :: "msg list \<Rightarrow> job \<times> string \<times> string list \<Rightarrow> job \<times> string \<times> string list" where
  "drain [] st = st"
| "drain (m # ms) st = drain ms (handle_msg m st)"

text \<open>
  The \<open>for job in self.jobs\<close> loop, threading the status line, the log and
  \<open>still_running\<close>.
\<close>

fun monitor_jobs ::
  "job list \<Rightarrow> string \<Rightarrow> string list \<Rightarrow> bool \<Rightarrow> job list \<times> string \<times> string list \<times> bool" where
  "monitor_jobs [] sv lg still_running = ([], sv, lg, still_running)"
| "monitor_jobs (j # js) sv lg still_running =
     (case drain (queue j) (j, sv, lg) of (j', sv', lg') \<Rightarrow>
       (case monitor_jobs js sv' lg' (still_running \<or> is_alive (process j')) of
          (js', sv'', lg'', sr) \<Rightarrow> (j'\<lparr>queue := []\<rparr> # js', sv'', lg'', sr)))"

definition monitor_all_outputs :: "app \<Rightarrow> app" where
  "monitor_all_outputs a =
    (case monitor_jobs (jobs a) (status_var a) (log_text a) False of
       (js, sv, lg, still_running) \<Rightarrow>
         (let kept = filter (\<lambda>j. is_alive (process j) \<or> status j \<noteq> ''Finished'') js in
          if still_running then
            a\<lparr>jobs := kept, log_text := lg,
              status_var :=
                str_nat (length (filter (\<lambda>j. is_alive (process j)) kept)) @ '' job(s) running...'',
              after_scheduled := after_scheduled a + 1\<rparr>
          else
            a\<lparr>jobs := kept, log_text := lg @ [''=== All Upload Jobs Finished ===''],
              status_var := ''Ready'', progress_running := False, stop_btn_enabled := False\<rparr>))"

subsection \<open>Cancelling: \<open>stop_upload\<close> and \<open>stop_selected_job\<close>\<close>

definition terminate :: "job \<Rightarrow> job" where
  "terminate j = j\<lparr>process := (process j)\<lparr>terminated := True\<rparr>\<rparr>"

text \<open>
  Whether a call of \<open>terminate()\<close> raises is decided by the operating system: it is the
  input \<open>raises\<close> of the two cancel operations. In the loop of \<open>stop_upload\<close> a
  \<open>terminate()\<close> that raises leaves the job as it is (\<open>except Exception: pass\<close>).
\<close>

fun stop_jobs :: "(job \<Rightarrow> bool) \<Rightarrow> job list \<Rightarrow> nat \<Rightarrow> job list \<times> nat" where
  "stop_jobs raises [] stopped = ([], stopped)"
| "stop_jobs raises (j # js) stopped =
     (if is_alive (process j) then
        (if raises j then
           (case stop_jobs raises js stopped of (js', n) \<Rightarrow> (j # js', n))
         else
           (case stop_jobs raises js (stopped + 1) of
              (js', n) \<Rightarrow> ((terminate j)\<lparr>status := ''Stopped''\<rparr> # js', n)))
      else (case stop_jobs raises js stopped of (js', n) \<Rightarrow> (j # js', n)))"

definition stop_upload :: "(job \<Rightarrow> bool) \<Rightarrow> app \<Rightarrow> app" where
  "stop_upload raises a =
    (case stop_jobs raises (jobs a) 0 of
       (js, stopped) \<Rightarrow>
         if stopped \<noteq> 0 then
           a\<lparr>jobs := js,
             log_text := log_text a @ [''Stopped '' @ str_nat stopped @ '' running upload job(s)''],
             status_var := ''Upload stopped''\<rparr>
         else a\<lparr>jobs := js, log_text := log_text a @ [''No running jobs to stop.'']\<rparr>)"

text \<open>
  The list id inside the log line of \<open>stop_selected_job\<close> is formatted by the f-string: a
  string stands for itself, any other value is rendered by Python's \<open>str\<close>, which is the
  parameter \<open>str_of\<close> of the model (\<open>Inl\<close> when it raises).
\<close>

definition format_value :: "(json \<Rightarrow> string + string) \<Rightarrow> json \<Rightarrow> string + string" where
  "format_value str_of v = (case v of JStr s \<Rightarrow> Inr s | _ \<Rightarrow> str_of v)"

text \<open>
  \<open>sel\<close> is what \<open>joblist_box.curselection()\<close> returns. Inside the \<open>try\<close> the process is
  signalled first, the status is set next and the log line is formatted last: an
  exception of \<open>terminate()\<close> leaves the job as it is, an exception of the formatting
  comes after the job has been stopped; both end in the same \<open>except\<close> clause.
\<close>

definition stop_selected_job ::
  "bool \<Rightarrow> (json \<Rightarrow> string + string) \<Rightarrow> nat list \<Rightarrow> app \<Rightarrow> app" where
  "stop_selected_job raises str_of sel a =
    (case sel of
       [] \<Rightarrow> a
     | idx # rest \<Rightarrow>
         if idx \<ge> length (jobs a) then a
         else
           (let j = jobs a ! idx in
            if is_alive (process j) then
              (if raises then
                 a\<lparr>log_text := log_text a @ [''Failed to stop job for folder: '' @ folder j]\<rparr>
               else
                 (case format_value str_of (job_list_id j) of
                    Inl e \<Rightarrow>
                      a\<lparr>jobs := (jobs a)[idx := (terminate j)\<lparr>status := ''Stopped''\<rparr>],
                        log_text := log_text a @ [''Failed to stop job for folder: '' @ folder j]\<rparr>
                  | Inr lid \<Rightarrow>
                      a\<lparr>jobs := (jobs a)[idx := (terminate j)\<lparr>status := ''Stopped''\<rparr>],
                        log_text := log_text a @
                          [''Stopped job for folder: '' @ folder j @
                           '' (List ID: '' @ lid @ '')'']\<rparr>))
            else a\<lparr>log_text := log_text a @ [''Job already finished: '' @ folder j]\<rparr>))"

subsection \<open>\<open>_launch_upload_job\<close>\<close>

text \<open>
  \<open>form\<close> holds what the \<open>get()\<close> calls of the Tk variables and the list dropdown return
  when the launch button is pressed, and \<open>list_options\<close>: the pairs
  \<open>(list_id, user_data)\<close> as the list service sent them.
\<close>

record form =
  selected_folder :: string
  form_username :: string
  form_password :: string
  form_descriptor :: string
  form_origin :: string
  form_avatar :: string
  form_list_id :: string
  form_warped :: bool
  form_name_as_userdata :: bool
  form_multi_face_policy :: int
  list_id_var :: string
  list_dropdown_current :: int
  list_options :: "(json \<times> json) list"

text \<open>
  \<open>path_exists\<close> is \<open>os.path.exists\<close>, \<open>found_script\<close> is the result of
  \<open>find_uploader_script()\<close>. The new worker process is alive, its queue is empty.
\<close>

definition launch_upload_job :: "(string \<Rightarrow> bool) \<Rightarrow> string option \<Rightarrow> form \<Rightarrow> app \<Rightarrow> app" where
  "launch_upload_job path_exists found_script f a =
    (if selected_folder f = [] then
       a\<lparr>errors_shown := errors_shown a @ [''Please select a folder first!'']\<rparr>
     else if \<not> path_exists (selected_folder f) then
       a\<lparr>errors_shown := errors_shown a @ [''Selected folder does not exist!'']\<rparr>
     else
       (case found_script of
          None \<Rightarrow>
            a\<lparr>errors_shown := errors_shown a @
              [''folder_uploader.py not found!'' @ [CHR 0x0A] @ ''Please ensure it'' @ [CHR 0x27] @
               ''s in the same directory as this application.'']\<rparr>
        | Some sp \<Rightarrow>
           (let idx = list_dropdown_current f;
                list_id_val =
                  (if list_id_var f \<noteq> [] \<and> 0 \<le> idx \<and> idx < int (length (list_options f))
                   then fst (list_options f ! nat idx) else JStr (form_list_id f));
                ar = \<lparr>script_path = sp, folder_path = selected_folder f,
                      username = form_username f, password = form_password f,
                      source = selected_folder f, descriptor = form_descriptor f,
                      origin = form_origin f, avatar = form_avatar f, list_id = list_id_val,
                      warped = form_warped f, name_as_userdata = form_name_as_userdata f,
                      multi_face_policy = form_multi_face_policy f\<rparr>;
                p = \<lparr>target_args = ar, is_alive = True, terminated = False\<rparr>;
                j = \<lparr>process = p, queue = [], folder = folder_path ar,
                     job_list_id = list_id ar, status = ''Uploading...''\<rparr>;
                js = jobs a @ [j]
            in monitor_all_outputs
                 (a\<lparr>jobs := js, progress_running := True,
                    status_var := str_nat (length js) @ '' job(s) running...'',
                    stop_btn_enabled := True\<rparr>))))"

subsection \<open>What the workers and the operating system do between two calls\<close>

text \<open>
  A trace interleaves the application's operations with the two things a worker can do:
  put a message on its queue, and stop running.
\<close>

datatype event =
  Poll | StopAll "job \<Rightarrow> bool" | StopSelected bool "json \<Rightarrow> string + string" "nat list"
  | WorkerPut nat msg | WorkerExit nat

fun step :: "event \<Rightarrow> app \<Rightarrow> app" where
  "step Poll a = monitor_all_outputs a"
| "step (StopAll raises) a = stop_upload raises a"
| "step (StopSelected raises str_of sel) a = stop_selected_job raises str_of sel a"
| "step (WorkerPut i m) a =
     (if i < length (jobs a)
      then a\<lparr>jobs := (jobs a)[i := (jobs a ! i)\<lparr>queue := queue (jobs a ! i) @ [m]\<rparr>]\<rparr>
      else a)"
| "step (WorkerExit i) a =
     (if i < length (jobs a)
      then a\<lparr>jobs := (jobs a)[i := (jobs a ! i)\<lparr>process := (process (jobs a ! i))\<lparr>is_alive := False\<rparr>\<rparr>]\<rparr>
      else a)"

fun run :: "event list \<Rightarrow> app \<Rightarrow> app" where
  "run [] a = a"
| "run (e # es) a = run es (step e a)"

section \<open>Settings: \<open>load_settings\<close>\<close>

text \<open>
  The settings file as \<open>load_settings\<close> finds it: absent, or \<open>open\<close>/\<open>json.load\<close> raise
  (with the text of the exception), or it parses to a value.
\<close>

datatype settings_file = Absent | LoadRaises string | Parsed json

text \<open>
  The Tk variables that \<open>load_settings\<close> sets. \<open>StringVar.set\<close> and \<open>IntVar.set\<close> store
  whatever value they are given, so these variables hold a \<open>json\<close> value;
  \<open>BooleanVar.set\<close> converts with Tk's \<open>getboolean\<close>, which raises on a value that is no
  boolean. \<open>getboolean\<close> belongs to Tk and is a parameter of the model (\<open>Inl\<close> carries the
  text of the exception).
\<close>

record tkvars =
  var_username :: json
  var_password :: json
  var_descriptor :: json
  var_origin :: json
  var_avatar :: json
  var_list_id :: json
  var_warped :: bool
  var_name_as_userdata :: bool
  var_multi_face_policy :: json

text \<open>The values the variables are created with in \<open>__init__\<close> and \<open>create_config_fields\<close>.\<close>

definition init_vars :: tkvars where
  "init_vars =
    \<lparr>var_username = (JStr []), var_password = (JStr []), var_descriptor = (JStr ''1''),
     var_origin = (JStr ''http://127.0.0.1:5000''), var_avatar = (JStr ''1''),
     var_list_id = (JStr ''90936600-d44b-4717-9b33-d685faf00616''),
     var_warped = False, var_name_as_userdata = False, var_multi_face_policy = (JInt 1)\<rparr>"

text \<open>\<open>settings.get(key, default)\<close> on the parsed dictionary.\<close>

definition dict_get :: "(string \<times> json) list \<Rightarrow> string \<Rightarrow> json \<Rightarrow> json" where
  "dict_get d k dflt = (case map_of (rev d) k of None \<Rightarrow> dflt | Some v \<Rightarrow> v)"

text \<open>
  The nine assignments, in source order. The default of a \<open>BooleanVar\<close> is its own
  current value, which \<open>getboolean\<close> accepts: a missing key leaves it as it is. The first
  assignment that raises ends the sequence and keeps the assignments made before it.
\<close>

definition set_warped ::
  "(json \<Rightarrow> string + bool) \<Rightarrow> (string \<times> json) list \<Rightarrow> tkvars \<Rightarrow> string + tkvars" where
  "set_warped getboolean d v =
    (case map_of (rev d) ''warped'' of
       None \<Rightarrow> Inr v
     | Some x \<Rightarrow> (case getboolean x of Inl e \<Rightarrow> Inl e | Inr b \<Rightarrow> Inr (v\<lparr>var_warped := b\<rparr>)))"

definition set_name_as_userdata ::
  "(json \<Rightarrow> string + bool) \<Rightarrow> (string \<times> json) list \<Rightarrow> tkvars \<Rightarrow> string + tkvars" where
  "set_name_as_userdata getboolean d v =
    (case map_of (rev d) ''name_as_userdata'' of
       None \<Rightarrow> Inr v
     | Some x \<Rightarrow>
        (case getboolean x of Inl e \<Rightarrow> Inl e | Inr b \<Rightarrow> Inr (v\<lparr>var_name_as_userdata := b\<rparr>)))"

definition set_strings :: "(string \<times> json) list \<Rightarrow> tkvars \<Rightarrow> tkvars" where
  "set_strings d v =
    v\<lparr>var_username := dict_get d ''username'' (var_username v),
      var_password := dict_get d ''password'' (var_password v),
      var_descriptor := dict_get d ''descriptor'' (var_descriptor v),
      var_origin := dict_get d ''origin'' (var_origin v),
      var_avatar := dict_get d ''avatar'' (var_avatar v),
      var_list_id := dict_get d ''list_id'' (var_list_id v)\<rparr>"

text \<open>
  \<open>load_settings\<close> returns the variables and the lines it passes to \<open>log_message\<close>. A
  parsed value that is no dictionary has no \<open>get\<close>: the first assignment raises
  \<open>AttributeError\<close>, whose text is the parameter \<open>no_get\<close>. Every exception ends in the
  \<open>except\<close> clause, which logs it.
\<close>

definition load_settings ::
  "(json \<Rightarrow> string + bool) \<Rightarrow> (json \<Rightarrow> string) \<Rightarrow> settings_file \<Rightarrow> tkvars \<Rightarrow> tkvars \<times> string list" where
  "load_settings getboolean no_get file v =
    (case file of
       Absent \<Rightarrow> (v, [])
     | LoadRaises e \<Rightarrow> (v, [''Could not load settings: '' @ e])
     | Parsed (JDict d) \<Rightarrow>
        (let v1 = set_strings d v in
         case set_warped getboolean d v1 of
           Inl e \<Rightarrow> (v1, [''Could not load settings: '' @ e])
         | Inr v2 \<Rightarrow>
            (case set_name_as_userdata getboolean d v2 of
               Inl e \<Rightarrow> (v2, [''Could not load settings: '' @ e])
             | Inr v3 \<Rightarrow>
                (v3\<lparr>var_multi_face_policy := dict_get d ''multi_face_policy'' (JInt 1)\<rparr>,
                 [''Settings for Gelecek Folder Uploader loaded successfully''])))
     | Parsed x \<Rightarrow> (v, [''Could not load settings: '' @ no_get x]))"

section \<open>Notions used to state the properties\<close>

text \<open>
  The option names the external command documents, and the reading of a command line
  after the interpreter and the script as a list of (option, value) pairs.
\<close>

definition required_flags :: "string list" where
  "required_flags =
    [''--login'', ''--password'', ''--source'', ''--warped'', ''--name_as_userdata'',
     ''--descriptor'', ''--origin'', ''--avatar'', ''--list_id'', ''--multi_face_policy'',
     ''--basic_attr'', ''--score_threshold'', ''--list_linked'']"

fun options :: "'a list \<Rightarrow> ('a \<times> 'a) list" where
  "options (f # v # rest) = (f, v) # options rest"
| "options rest = []"

text \<open>A job after one poll has drained its queue.\<close>

definition drain_job :: "job \<Rightarrow> job" where
  "drain_job j = (fst (drain (queue j) (j, [], [])))\<lparr>queue := []\<rparr>"

text \<open>
  The messages that assign the status field, and the condition that the last such
  message waiting in the queue (or, when none waits, the status field itself) is the
  \<open>Finished\<close> mark. A job is pruned when its worker is not alive and this holds.
\<close>

fun sets_status :: "msg \<Rightarrow> bool" where
  "sets_status (Status s) = True"
| "sets_status Finished = True"
| "sets_status m = False"

definition finished_last :: "job \<Rightarrow> bool" where
  "finished_last j =
    (case rev (filter sets_status (queue j)) of
       [] \<Rightarrow> status j = ''Finished''
     | m # ms \<Rightarrow> m = Finished \<or> m = Status ''Finished'')"

definition pruned :: "job \<Rightarrow> bool" where
  "pruned j = (\<not> is_alive (process j) \<and> finished_last j)"

text \<open>
  \<open>running\<close>: the status field still has its initial value. \<open>later j' j\<close>: \<open>j'\<close> is a
  later state of the job \<open>j\<close> that has not gone back to running.
\<close>

definition running :: "job \<Rightarrow> bool" where
  "running j = (status j = ''Uploading...'')"

definition later :: "job \<Rightarrow> job \<Rightarrow> bool" where
  "later j' j =
    (folder j' = folder j \<and> job_list_id j' = job_list_id j
     \<and> target_args (process j') = target_args (process j)
     \<and> (running j' \<longrightarrow> running j))"

text \<open>No status message that a worker puts on a queue carries the initial status text.\<close>

definition queue_ok :: "job \<Rightarrow> bool" where
  "queue_ok j = (Status ''Uploading...'' \<notin> set (queue j))"

fun worker_event_ok :: "event \<Rightarrow> bool" where
  "worker_event_ok (WorkerPut i m) = (m \<noteq> Status ''Uploading...'')"
| "worker_event_ok e = True"

section \<open>Concrete inputs for the examples\<close>

definition example_args :: args where
  "example_args =
    \<lparr>script_path = ''/opt/folder_uploader.py'', folder_path = ''/data/a'',
     username = ''bob'', password = ''s3cret'', source = ''/data/a'', descriptor = ''1'',
     origin = ''http://127.0.0.1:5000'', avatar = ''1'', list_id = (JStr ''L1''),
     warped = True, name_as_userdata = False, multi_face_policy = 1\<rparr>"

text \<open>The command list and the command line of \<open>example_args\<close> under \<open>python3\<close>.\<close>

definition example_cmd :: "json list" where
  "example_cmd =
    [JStr ''python3'', JStr ''/opt/folder_uploader.py'', JStr ''--login'', JStr ''bob'',
     JStr ''--password'', JStr ''s3cret'', JStr ''--source'', JStr ''/data/a'',
     JStr ''--warped'', JStr ''1'', JStr ''--name_as_userdata'', JStr ''0'',
     JStr ''--descriptor'', JStr ''1'', JStr ''--origin'', JStr ''http://127.0.0.1:5000'',
     JStr ''--avatar'', JStr ''1'', JStr ''--list_id'', JStr ''L1'',
     JStr ''--multi_face_policy'', JStr ''1'', JStr ''--basic_attr'', JStr ''1'',
     JStr ''--score_threshold'', JStr ''0.0'', JStr ''--list_linked'', JStr ''1'']"

definition example_line :: string where
  "example_line =
    ''python3 /opt/folder_uploader.py --login bob --password s3cret --source /data/a'' @
    '' --warped 1 --name_as_userdata 0 --descriptor 1 --origin http://127.0.0.1:5000'' @
    '' --avatar 1 --list_id L1 --multi_face_policy 1 --basic_attr 1 --score_threshold 0.0'' @
    '' --list_linked 1''"

definition example_process :: "bool \<Rightarrow> bool \<Rightarrow> process" where
  "example_process alive term =
    \<lparr>target_args = example_args, is_alive = alive, terminated = term\<rparr>"

definition example_job :: "process \<Rightarrow> msg list \<Rightarrow> string \<Rightarrow> job" where
  "example_job p q st =
    \<lparr>process = p, queue = q, folder = ''/data/a'', job_list_id = (JStr ''L1''), status = st\<rparr>"

definition example_app :: "job list \<Rightarrow> app" where
  "example_app js =
    \<lparr>jobs = js, log_text = [], status_var = ''1 job(s) running...'', progress_running = True,
     stop_btn_enabled = True, errors_shown = [], after_scheduled = 0\<rparr>"

definition example_running_app :: app where
  "example_running_app = example_app [example_job (example_process True False) [] ''Uploading...'']"

definition never_raises :: "job \<Rightarrow> bool" where
  "never_raises j = False"

definition always_raises :: "job \<Rightarrow> bool" where
  "always_raises j = True"

text \<open>
  A number of 4301 digits, and a rendering function for the examples: Python's \<open>str\<close> on
  \<open>None\<close>, booleans, integers and numbers with a fraction (the examples apply it to
  nothing else).
\<close>

definition huge_int :: int where
  "huge_int = 10 ^ 4300"

definition example_str_of :: "json \<Rightarrow> string + string" where
  "example_str_of v =
    (case v of
       JNull \<Rightarrow> Inr ''None''
     | JBool b \<Rightarrow> Inr (if b then ''True'' else ''False'')
     | JInt i \<Rightarrow> py_str i
     | JFloat f \<Rightarrow> Inr f
     | JStr s \<Rightarrow> Inr s
     | JList xs \<Rightarrow> Inr ''[...]''
     | JDict d \<Rightarrow> Inr ''{...}'')"

definition example_form :: form where
  "example_form =
    \<lparr>selected_folder = ''/data/b'', form_username = ''bob'', form_password = ''s3cret'',
     form_descriptor = ''1'', form_origin = ''http://127.0.0.1:5000'', form_avatar = ''1'',
     form_list_id = ''L1'', form_warped = False, form_name_as_userdata = False,
     form_multi_face_policy = 1, list_id_var = [], list_dropdown_current = - 1,
     list_options = []\<rparr>"

definition example_path_exists :: "string \<Rightarrow> bool" where
  "example_path_exists path = (path = ''/data/a'' \<or> path = ''/data/b'')"

definition example_getboolean :: "json \<Rightarrow> string + bool" where
  "example_getboolean x = (case x of JBool b \<Rightarrow> Inr b | _ \<Rightarrow> Inl ''expected boolean value'')"

definition example_no_get :: "json \<Rightarrow> string" where
  "example_no_get x = ''object has no attribute get''"

section \<open>Decimal rendering is injective\<close>

lemma digit_char_inj: "a < 10 \<Longrightarrow> b < 10 \<Longrightarrow> digit_char a = digit_char b \<Longrightarrow> a = b"
proof -
  assume a: "a < 10" and b: "b < 10" and e: "digit_char a = digit_char b"
  have d: "distinct ''0123456789''" by simp
  have l: "length ''0123456789'' = 10" by simp
  from a b l have "a < length ''0123456789''" "b < length ''0123456789''" by simp_all
  with d e show ?thesis unfolding digit_char_def by (simp only: nth_eq_iff_index_eq)
qed

lemma digit_char_not_minus: "d < 10 \<Longrightarrow> digit_char d \<noteq> CHR ''-''"
proof -
  assume "d < 10"
  then have "d < length ''0123456789''" by simp
  then have "''0123456789'' ! d \<in> set ''0123456789''" by (rule nth_mem)
  then show ?thesis unfolding digit_char_def by auto
qed

lemma str_nat_nonempty: "str_nat n \<noteq> []"
  by (subst str_nat.simps) simp

lemma str_nat_inj: "str_nat n = str_nat m \<Longrightarrow> n = m"
proof (induction n arbitrary: m rule: str_nat.induct)
  case (1 n)
  show ?case
  proof (cases "n < 10")
    case True
    show ?thesis
    proof (cases "m < 10")
      case m: True
      from "1.prems" True m have "digit_char n = digit_char m"
        by (simp add: str_nat.simps [of n] str_nat.simps [of m])
      with True m show ?thesis using digit_char_inj by blast
    next
      case m: False
      from "1.prems" True m have "[digit_char n] = str_nat (m div 10) @ [digit_char (m mod 10)]"
        by (simp add: str_nat.simps [of n] str_nat.simps [of m])
      then show ?thesis using str_nat_nonempty [of "m div 10"] by simp
    qed
  next
    case False
    show ?thesis
    proof (cases "m < 10")
      case m: True
      from "1.prems" False m have "str_nat (n div 10) @ [digit_char (n mod 10)] = [digit_char m]"
        by (simp add: str_nat.simps [of n] str_nat.simps [of m])
      then show ?thesis using str_nat_nonempty [of "n div 10"] by simp
    next
      case m: False
      from "1.prems" False m
      have e: "str_nat (n div 10) @ [digit_char (n mod 10)] = str_nat (m div 10) @ [digit_char (m mod 10)]"
        by (simp add: str_nat.simps [of n] str_nat.simps [of m])
      then have "str_nat (n div 10) = str_nat (m div 10)" by simp
      with False have d: "n div 10 = m div 10" using "1.IH" by blast
      from e have "digit_char (n mod 10) = digit_char (m mod 10)" by simp
      then have "n mod 10 = m mod 10" by (intro digit_char_inj) simp_all
      with d show ?thesis by (metis div_mult_mod_eq)
    qed
  qed
qed

lemma str_nat_hd: "hd (str_nat n) \<noteq> CHR ''-''"
proof (induction n rule: str_nat.induct)
  case (1 n)
  show ?case
  proof (cases "n < 10")
    case True
    with digit_char_not_minus [of n] show ?thesis by (simp add: str_nat.simps [of n])
  next
    case False
    with 1 show ?thesis
      by (simp add: str_nat.simps [of n] str_nat_nonempty)
  qed
qed

lemma str_int_inj: "str_int i = str_int k \<Longrightarrow> i = k"
proof -
  assume e: "str_int i = str_int k"
  have neg: "CHR ''-'' # s \<noteq> str_nat n" for s n
    using str_nat_hd [of n] by (metis list.sel(1))
  show ?thesis
  proof (cases "i < 0")
    case True
    show ?thesis
    proof (cases "k < 0")
      case k: True
      from e True k have "str_nat (nat (- i)) = str_nat (nat (- k))" by (simp add: str_int_def)
      then have "nat (- i) = nat (- k)" by (rule str_nat_inj)
      with True k show ?thesis by simp
    next
      case k: False
      with e True neg show ?thesis by (simp add: str_int_def)
    qed
  next
    case False
    show ?thesis
    proof (cases "k < 0")
      case k: True
      with e False neg [of "str_nat (nat (- k))" "nat i"] show ?thesis by (simp add: str_int_def)
    next
      case k: False
      from e False k have "str_nat (nat i) = str_nat (nat k)" by (simp add: str_int_def)
      then have "nat i = nat k" by (rule str_nat_inj)
      with False k show ?thesis by simp
    qed
  qed
qed

lemma exit_status_inj: "exit_status r = exit_status r' \<Longrightarrow> r = r'"
  by (auto simp: exit_status_def split: if_splits dest: str_int_inj)

lemma read_lines_no_status [simp]: "filter is_status (read_lines ls) = []"
  by (induction ls) (simp_all add: read_lines_def)

lemma read_lines_outputs [simp]: "filter is_output (read_lines ls) = read_lines ls"
  by (induction ls) (simp_all add: read_lines_def)

lemma read_lines_no_finished [simp]: "count_list (read_lines ls) Finished = 0"
  by (induction ls) (simp_all add: read_lines_def)

section \<open>Numbers over the digit limit, and the three ways a run can begin\<close>

lemma str_nat_length: "10 ^ k \<le> n \<Longrightarrow> k < length (str_nat n)"
proof (induction k arbitrary: n)
  case 0
  with str_nat_nonempty [of n] show ?case by simp
next
  case (Suc k)
  from Suc.prems have m: "10 * 10 ^ k \<le> n" by simp
  have "(1::nat) \<le> 10 ^ k" by simp
  with m have big: "\<not> n < 10" by linarith
  from m have d: "10 ^ k \<le> n div 10" by (simp add: less_eq_div_iff_mult_less_eq mult.commute)
  from d have "k < length (str_nat (n div 10))" by (rule Suc.IH)
  with big show ?case by (simp add: str_nat.simps [of n])
qed

lemma nat_abs_pow10: "nat \<bar>(10::int) ^ k\<bar> = 10 ^ k"
  by (simp add: nat_power_eq)

lemma py_str_huge:
  "py_str huge_int =
     Inl (''Exceeds the limit (4300 digits) for integer string conversion; '' @
          ''use sys.set_int_max_str_digits() to increase the limit'')"
proof -
  have n: "nat \<bar>huge_int\<bar> = 10 ^ 4300" unfolding huge_int_def by (rule nat_abs_pow10)
  have "4300 < length (str_nat (10 ^ 4300))" by (rule str_nat_length) (rule order_refl)
  then have "int_max_str_digits < length (str_nat (nat \<bar>huge_int\<bar>))"
    unfolding int_max_str_digits_def n .
  then show ?thesis unfolding py_str_def by (rule if_P)
qed

lemma py_str_small: "length (str_nat (nat \<bar>i\<bar>)) \<le> int_max_str_digits \<Longrightarrow> py_str i = Inr (str_int i)"
  by (simp add: py_str_def)

lemma run_upload_mp_cases:
  obtains (build) e where "cmd py a = Inl e"
      "run_upload_mp py a p = [Error (''Error running upload: '' @ e), Finished]"
  | (join) c e where "cmd py a = Inr c" "py_join '' '' c = Inl e"
      "run_upload_mp py a p =
         [Output (''Starting upload from: '' @ folder_path a),
          Error (''Error running upload: '' @ e), Finished]"
  | (spawn) c line where "cmd py a = Inr c" "py_join '' '' c = Inr line"
      "run_upload_mp py a p =
         Output (''Starting upload from: '' @ folder_path a) #
         Output (''Command: '' @ line) # after_spawn p @ [Finished]"
proof (cases "cmd py a")
  case (Inl e)
  then show ?thesis using build by (simp add: run_upload_mp_def)
next
  case (Inr c)
  show ?thesis
  proof (cases "py_join '' '' c")
    case (Inl e)
    with Inr show ?thesis using join by (simp add: run_upload_mp_def)
  next
    case r: (Inr line)
    with Inr show ?thesis using spawn by (simp add: run_upload_mp_def)
  qed
qed

lemma after_spawn_no_finished [simp]: "count_list (after_spawn p) Finished = 0"
  by (cases p) (simp_all add: after_spawn_def)

section \<open>Joined strings and the log of a poll\<close>







section \<open>What one poll does to the job list\<close>

lemma handle_msg_job:
  "fst (handle_msg m (j, sv, lg)) = fst (handle_msg m (j, sv0, lg0))
   \<and> process (fst (handle_msg m (j, sv, lg))) = process j
   \<and> queue (fst (handle_msg m (j, sv, lg))) = queue j
   \<and> folder (fst (handle_msg m (j, sv, lg))) = folder j
   \<and> job_list_id (fst (handle_msg m (j, sv, lg))) = job_list_id j"
  by (cases m) simp_all

lemma drain_job_indep: "fst (drain ms (j, sv, lg)) = fst (drain ms (j, sv0, lg0))"
proof (induction ms arbitrary: j sv lg sv0 lg0)
  case Nil
  show ?case by simp
next
  case (Cons m ms)
  obtain j1 sv1 lg1 where h: "handle_msg m (j, sv, lg) = (j1, sv1, lg1)"
    by (cases "handle_msg m (j, sv, lg)")
  obtain j2 sv2 lg2 where h2: "handle_msg m (j, sv0, lg0) = (j2, sv2, lg2)"
    by (cases "handle_msg m (j, sv0, lg0)")
  from h h2 handle_msg_job [of m j sv lg sv0 lg0] have "j1 = j2" by simp
  with h h2 Cons.IH [of j1 sv1 lg1 sv2 lg2] show ?case by simp
qed

lemma drain_keeps:
  "process (fst (drain ms (j, sv, lg))) = process j
   \<and> folder (fst (drain ms (j, sv, lg))) = folder j
   \<and> job_list_id (fst (drain ms (j, sv, lg))) = job_list_id j"
proof (induction ms arbitrary: j sv lg)
  case Nil
  show ?case by simp
next
  case (Cons m ms)
  obtain j1 sv1 lg1 where h: "handle_msg m (j, sv, lg) = (j1, sv1, lg1)"
    by (cases "handle_msg m (j, sv, lg)")
  with handle_msg_job [of m j sv lg sv lg]
  have "process j1 = process j \<and> folder j1 = folder j \<and> job_list_id j1 = job_list_id j" by simp
  with h Cons.IH [of j1 sv1 lg1] show ?case by simp
qed

lemma drain_job_keeps [simp]:
  "process (drain_job j) = process j" "folder (drain_job j) = folder j"
  "job_list_id (drain_job j) = job_list_id j" "queue (drain_job j) = []"
  by (simp_all add: drain_job_def drain_keeps)

lemma monitor_jobs_eq:
  "monitor_jobs js sv lg sr = (js', sv', lg', sr') \<Longrightarrow>
   js' = map drain_job js \<and> sr' = (sr \<or> (\<exists>j \<in> set js. is_alive (process j)))"
proof (induction js arbitrary: sv lg sr js' sv' lg' sr')
  case Nil
  then show ?case by simp
next
  case (Cons j js)
  obtain j1 sv1 lg1 where d: "drain (queue j) (j, sv, lg) = (j1, sv1, lg1)"
    by (cases "drain (queue j) (j, sv, lg)")
  obtain js2 sv2 lg2 sr2 where
    r: "monitor_jobs js sv1 lg1 (sr \<or> is_alive (process j1)) = (js2, sv2, lg2, sr2)"
    by (cases "monitor_jobs js sv1 lg1 (sr \<or> is_alive (process j1))")
  from d have j1: "j1 = fst (drain (queue j) (j, [], []))"
    using drain_job_indep [of "queue j" j sv lg "[]" "[]"] by simp
  from d have p: "process j1 = process j" using drain_keeps [of "queue j" j sv lg] by simp
  from Cons.IH [OF r]
  have ih: "js2 = map drain_job js" "sr2 = ((sr \<or> is_alive (process j1)) \<or> (\<exists>j \<in> set js. is_alive (process j)))"
    by simp_all
  from Cons.prems d r have "js' = j1\<lparr>queue := []\<rparr> # js2" "sr' = sr2" by simp_all
  with ih j1 p show ?case by (auto simp: drain_job_def)
qed

lemma monitor_jobs_result:
  "jobs (monitor_all_outputs a) =
     filter (\<lambda>j. is_alive (process j) \<or> status j \<noteq> ''Finished'') (map drain_job (jobs a))"
proof -
  obtain js sv lg sr where
    r: "monitor_jobs (jobs a) (status_var a) (log_text a) False = (js, sv, lg, sr)"
    by (cases "monitor_jobs (jobs a) (status_var a) (log_text a) False")
  from monitor_jobs_eq [OF r] have "js = map drain_job (jobs a)" by simp
  with r show ?thesis by (simp add: monitor_all_outputs_def Let_def)
qed

lemma monitor_alive:
  assumes "\<exists>j \<in> set (jobs a). is_alive (process j)"
  shows "after_scheduled (monitor_all_outputs a) = after_scheduled a + 1"
    "progress_running (monitor_all_outputs a) = progress_running a"
    "stop_btn_enabled (monitor_all_outputs a) = stop_btn_enabled a"
proof -
  obtain js sv lg sr where
    r: "monitor_jobs (jobs a) (status_var a) (log_text a) False = (js, sv, lg, sr)"
    by (cases "monitor_jobs (jobs a) (status_var a) (log_text a) False")
  from monitor_jobs_eq [OF r] assms have "sr" by simp
  with r show "after_scheduled (monitor_all_outputs a) = after_scheduled a + 1"
    "progress_running (monitor_all_outputs a) = progress_running a"
    "stop_btn_enabled (monitor_all_outputs a) = stop_btn_enabled a"
    by (simp_all add: monitor_all_outputs_def Let_def)
qed

lemma monitor_none_alive:
  assumes "\<not> (\<exists>j \<in> set (jobs a). is_alive (process j))"
  shows "after_scheduled (monitor_all_outputs a) = after_scheduled a"
    "\<not> progress_running (monitor_all_outputs a)"
    "\<not> stop_btn_enabled (monitor_all_outputs a)"
    "status_var (monitor_all_outputs a) = ''Ready''"
    "last (log_text (monitor_all_outputs a)) = ''=== All Upload Jobs Finished ===''"
proof -
  obtain js sv lg sr where
    r: "monitor_jobs (jobs a) (status_var a) (log_text a) False = (js, sv, lg, sr)"
    by (cases "monitor_jobs (jobs a) (status_var a) (log_text a) False")
  from monitor_jobs_eq [OF r] assms have "\<not> sr" by simp
  with r show "after_scheduled (monitor_all_outputs a) = after_scheduled a"
    "\<not> progress_running (monitor_all_outputs a)"
    "\<not> stop_btn_enabled (monitor_all_outputs a)"
    "status_var (monitor_all_outputs a) = ''Ready''"
    "last (log_text (monitor_all_outputs a)) = ''=== All Upload Jobs Finished ===''"
    by (simp_all add: monitor_all_outputs_def Let_def)
qed

lemma monitor_keeps_alive:
  assumes "\<exists>j \<in> set (jobs a). is_alive (process j)"
  shows "\<exists>j \<in> set (jobs (monitor_all_outputs a)). is_alive (process j)"
proof -
  from assms obtain j where j: "j \<in> set (jobs a)" "is_alive (process j)" by blast
  then have "drain_job j \<in> set (jobs (monitor_all_outputs a))"
    by (simp add: monitor_jobs_result)
  with j(2) show ?thesis by (intro bexI [of _ "drain_job j"]) simp_all
qed

lemma monitor_left_over:
  assumes "\<not> (\<exists>j \<in> set (jobs a). is_alive (process j))"
    and "j \<in> set (jobs (monitor_all_outputs a))"
  shows "\<not> is_alive (process j) \<and> status j \<noteq> ''Finished''"
  using assms by (auto simp: monitor_jobs_result)

section \<open>The status of a job after its queue is drained\<close>

lemma drain_snoc: "drain (ms @ [m]) st = handle_msg m (drain ms st)"
  by (induction ms arbitrary: st) simp_all

lemma status_handle_msg:
  "status (fst (handle_msg m (j, sv, lg))) =
     (case m of Status s \<Rightarrow> s | Finished \<Rightarrow> ''Finished'' | _ \<Rightarrow> status j)"
  by (cases m) simp_all

lemma status_drain:
  "status (fst (drain ms (j, sv, lg))) =
     (case rev (filter sets_status ms) of
        [] \<Rightarrow> status j
      | m # rest \<Rightarrow> (case m of Status s \<Rightarrow> s | _ \<Rightarrow> ''Finished''))"
proof (induction ms rule: rev_induct)
  case Nil
  show ?case by simp
next
  case (snoc m ms)
  obtain j1 sv1 lg1 where d: "drain ms (j, sv, lg) = (j1, sv1, lg1)"
    by (cases "drain ms (j, sv, lg)")
  with snoc have ih: "status j1 =
     (case rev (filter sets_status ms) of
        [] \<Rightarrow> status j
      | m # rest \<Rightarrow> (case m of Status s \<Rightarrow> s | _ \<Rightarrow> ''Finished''))" by simp
  have "status (fst (drain (ms @ [m]) (j, sv, lg))) =
     (case m of Status s \<Rightarrow> s | Finished \<Rightarrow> ''Finished'' | _ \<Rightarrow> status j1)"
    by (simp only: drain_snoc d status_handle_msg)
  with ih show ?case by (cases m) simp_all
qed

lemma drain_job_finished: "status (drain_job j) = ''Finished'' \<longleftrightarrow> finished_last j"
proof -
  have e: "status (drain_job j) =
     (case rev (filter sets_status (queue j)) of
        [] \<Rightarrow> status j
      | m # rest \<Rightarrow> (case m of Status s \<Rightarrow> s | _ \<Rightarrow> ''Finished''))"
    by (simp add: drain_job_def status_drain)
  show ?thesis
  proof (cases "rev (filter sets_status (queue j))")
    case Nil
    with e show ?thesis by (simp add: finished_last_def)
  next
    case (Cons m rest)
    then have "m \<in> set (rev (filter sets_status (queue j)))" by simp
    then have "sets_status m" by simp
    with e Cons show ?thesis by (cases m) (simp_all add: finished_last_def)
  qed
qed

lemma read_lines_no_setter [simp]: "filter sets_status (read_lines ls) = []"
  by (induction ls) (simp_all add: read_lines_def)




lemma kept_iff_not_pruned:
  "(is_alive (process (drain_job j)) \<or> status (drain_job j) \<noteq> ''Finished'') \<longleftrightarrow> \<not> pruned j"
  by (simp add: pruned_def drain_job_finished)

lemma monitor_prunes:
  "jobs (monitor_all_outputs a) = map drain_job (filter (\<lambda>j. \<not> pruned j) (jobs a))"
proof -
  have "filter (\<lambda>j. is_alive (process j) \<or> status j \<noteq> ''Finished'') (map drain_job (jobs a))
    = map drain_job (filter (\<lambda>j. \<not> pruned j) (jobs a))"
    by (simp only: filter_map o_def kept_iff_not_pruned)
  then show ?thesis by (simp only: monitor_jobs_result)
qed




section \<open>What Stop All does to the job list\<close>

lemma stop_jobs_eq:
  "stop_jobs rs js n =
    (map (\<lambda>j. if is_alive (process j) \<and> \<not> rs j then (terminate j)\<lparr>status := ''Stopped''\<rparr> else j) js,
     n + length (filter (\<lambda>j. is_alive (process j) \<and> \<not> rs j) js))"
  by (induction js arbitrary: n) simp_all

lemma stop_upload_none_alive:
  assumes "\<forall>j \<in> set (jobs a). \<not> is_alive (process j)"
  shows "stop_upload rs a = a\<lparr>log_text := log_text a @ [''No running jobs to stop.'']\<rparr>"
proof -
  from assms have f: "filter (\<lambda>j. is_alive (process j) \<and> \<not> rs j) (jobs a) = []"
    by (simp add: filter_empty_conv)
  from assms have "map (\<lambda>j. if is_alive (process j) \<and> \<not> rs j
      then (terminate j)\<lparr>status := ''Stopped''\<rparr> else j) (jobs a) = map (\<lambda>j. j) (jobs a)"
    by (intro map_cong) simp_all
  with f show ?thesis by (simp add: stop_upload_def stop_jobs_eq)
qed

lemma stop_upload_jobs:
  assumes "\<forall>j \<in> set (jobs a). \<not> rs j"
  shows "jobs (stop_upload rs a) =
    map (\<lambda>j. if is_alive (process j)
              then j\<lparr>process := (process j)\<lparr>terminated := True\<rparr>, status := ''Stopped''\<rparr>
              else j) (jobs a)"
proof -
  from assms have "map (\<lambda>j. if is_alive (process j) \<and> \<not> rs j
      then (terminate j)\<lparr>status := ''Stopped''\<rparr> else j) (jobs a)
    = map (\<lambda>j. if is_alive (process j)
              then j\<lparr>process := (process j)\<lparr>terminated := True\<rparr>, status := ''Stopped''\<rparr>
              else j) (jobs a)"
    by (intro map_cong) (simp_all add: terminate_def)
  then show ?thesis by (simp add: stop_upload_def stop_jobs_eq)
qed

section \<open>Every step keeps a job from going back to running\<close>

lemma later_refl: "later j j"
  by (simp add: later_def)

lemma later_trans: "later j3 j2 \<Longrightarrow> later j2 j1 \<Longrightarrow> later j3 j1"
  by (simp add: later_def)

lemma list_emb_map_filter:
  "(\<And>x. x \<in> set xs \<Longrightarrow> P (f x) x) \<Longrightarrow> list_emb P (map f (filter Q xs)) xs"
  by (induction xs) auto

lemma list_emb_map:
  "(\<And>x. x \<in> set xs \<Longrightarrow> P (f x) x) \<Longrightarrow> list_emb P (map f xs) xs"
  by (induction xs) auto

lemma list_emb_update:
  "i < length xs \<Longrightarrow> P y (xs ! i) \<Longrightarrow> (\<And>x. P x x) \<Longrightarrow> list_emb P (xs[i := y]) xs"
proof (induction xs arbitrary: i)
  case Nil
  then show ?case by simp
next
  case (Cons x xs)
  show ?case
  proof (cases i)
    case 0
    with Cons.prems show ?thesis by (auto intro: list_emb_refl)
  next
    case (Suc k)
    with Cons.prems have "list_emb P (xs[k := y]) xs" by (intro Cons.IH) simp_all
    with Suc Cons.prems(3) show ?thesis by auto
  qed
qed

lemma later_drain_job: "queue_ok j \<Longrightarrow> later (drain_job j) j"
proof -
  assume ok: "queue_ok j"
  have e: "status (drain_job j) =
     (case rev (filter sets_status (queue j)) of
        [] \<Rightarrow> status j
      | m # rest \<Rightarrow> (case m of Status s \<Rightarrow> s | _ \<Rightarrow> ''Finished''))"
    by (simp add: drain_job_def status_drain)
  have "running j" if r: "running (drain_job j)"
  proof (cases "rev (filter sets_status (queue j))")
    case Nil
    with e r show ?thesis by (simp add: running_def)
  next
    case (Cons m rest)
    then have "m \<in> set (rev (filter sets_status (queue j)))" by simp
    then have m: "m \<in> set (queue j)" by simp
    show ?thesis
    proof (cases m)
      case (Status s)
      with e r Cons have "s = ''Uploading...''" by (simp add: running_def)
      with m Status ok show ?thesis by (simp add: queue_ok_def)
    next
      case (Output s)
      with e r Cons show ?thesis by (simp add: running_def)
    next
      case (Error s)
      with e r Cons show ?thesis by (simp add: running_def)
    next
      case Finished
      with e r Cons show ?thesis by (simp add: running_def)
    qed
  qed
  then show ?thesis by (simp add: later_def)
qed

lemma queue_ok_drain_job: "queue_ok (drain_job j)"
  by (simp add: queue_ok_def)

lemma step_poll:
  assumes "\<forall>j \<in> set (jobs a). queue_ok j"
  shows "list_emb later (jobs (monitor_all_outputs a)) (jobs a)"
    and "\<forall>j \<in> set (jobs (monitor_all_outputs a)). queue_ok j"
proof -
  from assms show "list_emb later (jobs (monitor_all_outputs a)) (jobs a)"
    by (simp only: monitor_prunes) (rule list_emb_map_filter, simp add: later_drain_job)
  show "\<forall>j \<in> set (jobs (monitor_all_outputs a)). queue_ok j"
    by (auto simp: monitor_prunes queue_ok_drain_job)
qed

lemma later_stopped:
  "later (if is_alive (process j) \<and> \<not> rs j then (terminate j)\<lparr>status := ''Stopped''\<rparr> else j) j"
  by (simp add: later_def running_def terminate_def)

lemma stop_upload_jobs_map:
  "jobs (stop_upload rs a) =
    map (\<lambda>j. if is_alive (process j) \<and> \<not> rs j then (terminate j)\<lparr>status := ''Stopped''\<rparr> else j)
      (jobs a)"
  by (simp add: stop_upload_def stop_jobs_eq)

lemma step_stop_all:
  assumes "\<forall>j \<in> set (jobs a). queue_ok j"
  shows "list_emb later (jobs (stop_upload rs a)) (jobs a)"
    and "\<forall>j \<in> set (jobs (stop_upload rs a)). queue_ok j"
proof -
  show "list_emb later (jobs (stop_upload rs a)) (jobs a)"
    by (simp only: stop_upload_jobs_map) (rule list_emb_map, rule later_stopped)
  from assms show "\<forall>j \<in> set (jobs (stop_upload rs a)). queue_ok j"
    by (auto simp: stop_upload_jobs_map queue_ok_def terminate_def)
qed

lemma update_step:
  assumes "\<forall>j \<in> set js. queue_ok j" and "i < length js" and "later y (js ! i)" and "queue_ok y"
  shows "list_emb later (js[i := y]) js \<and> (\<forall>j \<in> set (js[i := y]). queue_ok j)"
proof -
  from assms(2,3) have "list_emb later (js[i := y]) js"
    by (rule list_emb_update) (rule later_refl)
  moreover have "set (js[i := y]) \<subseteq> insert y (set js)" by (rule set_update_subset_insert)
  with assms(1,4) have "\<forall>j \<in> set (js[i := y]). queue_ok j" by auto
  ultimately show ?thesis by simp
qed

lemma same_step:
  assumes "\<forall>j \<in> set js. queue_ok j"
  shows "list_emb later js js \<and> (\<forall>j \<in> set js. queue_ok j)"
  using assms by (simp add: list_emb_refl later_refl)

lemma stop_selected_jobs:
  "jobs (stop_selected_job raises str_of sel a) =
    (case sel of
       [] \<Rightarrow> jobs a
     | idx # rest \<Rightarrow>
         if idx < length (jobs a) \<and> is_alive (process (jobs a ! idx)) \<and> \<not> raises
         then (jobs a)[idx := (terminate (jobs a ! idx))\<lparr>status := ''Stopped''\<rparr>]
         else jobs a)"
  by (simp add: stop_selected_job_def Let_def split: list.splits sum.splits)

lemma step_stop_selected:
  assumes "\<forall>j \<in> set (jobs a). queue_ok j"
  shows "list_emb later (jobs (stop_selected_job raises str_of sel a)) (jobs a)
     \<and> (\<forall>j \<in> set (jobs (stop_selected_job raises str_of sel a)). queue_ok j)"
proof (cases sel)
  case Nil
  with same_step [OF assms] show ?thesis by (simp add: stop_selected_jobs)
next
  case (Cons idx rest)
  show ?thesis
  proof (cases "idx < length (jobs a) \<and> is_alive (process (jobs a ! idx)) \<and> \<not> raises")
    case True
    let ?y = "(terminate (jobs a ! idx))\<lparr>status := ''Stopped''\<rparr>"
    from True have "jobs a ! idx \<in> set (jobs a)" by simp
    with assms have "queue_ok (jobs a ! idx)" by blast
    then have q: "queue_ok ?y" by (simp add: queue_ok_def terminate_def)
    have l: "later ?y (jobs a ! idx)" by (simp add: later_def running_def terminate_def)
    from True have i: "idx < length (jobs a)" by simp
    from True Cons have "jobs (stop_selected_job raises str_of sel a) = (jobs a)[idx := ?y]"
      by (simp add: stop_selected_jobs)
    with update_step [OF assms i l q] show ?thesis by simp
  next
    case False
    with Cons have "jobs (stop_selected_job raises str_of sel a) = jobs a"
      by (auto simp: stop_selected_jobs)
    with same_step [OF assms] show ?thesis by simp
  qed
qed

lemma step_later:
  assumes "\<forall>j \<in> set (jobs a). queue_ok j" and "worker_event_ok e"
  shows "list_emb later (jobs (step e a)) (jobs a) \<and> (\<forall>j \<in> set (jobs (step e a)). queue_ok j)"
proof (cases e)
  case Poll
  with step_poll [OF assms(1)] show ?thesis by simp
next
  case (StopAll rs)
  with step_stop_all [OF assms(1)] show ?thesis by simp
next
  case (StopSelected raises str_of sel)
  with step_stop_selected [OF assms(1)] show ?thesis by simp
next
  case (WorkerPut i m)
  show ?thesis
  proof (cases "i < length (jobs a)")
    case True
    let ?y = "(jobs a ! i)\<lparr>queue := queue (jobs a ! i) @ [m]\<rparr>"
    from True have "jobs a ! i \<in> set (jobs a)" by simp
    with assms(1) have "queue_ok (jobs a ! i)" by blast
    with assms(2) WorkerPut have q: "queue_ok ?y" by (simp add: queue_ok_def)
    have l: "later ?y (jobs a ! i)" by (simp add: later_def running_def)
    from update_step [OF assms(1) True l q] True WorkerPut show ?thesis by simp
  next
    case False
    with same_step [OF assms(1)] WorkerPut show ?thesis by simp
  qed
next
  case (WorkerExit i)
  show ?thesis
  proof (cases "i < length (jobs a)")
    case True
    let ?y = "(jobs a ! i)\<lparr>process := (process (jobs a ! i))\<lparr>is_alive := False\<rparr>\<rparr>"
    from True have "jobs a ! i \<in> set (jobs a)" by simp
    with assms(1) have "queue_ok (jobs a ! i)" by blast
    then have q: "queue_ok ?y" by (simp add: queue_ok_def)
    have l: "later ?y (jobs a ! i)" by (simp add: later_def running_def)
    from update_step [OF assms(1) True l q] True WorkerExit show ?thesis by simp
  next
    case False
    with same_step [OF assms(1)] WorkerExit show ?thesis by simp
  qed
qed

lemma run_later:
  "\<forall>j \<in> set (jobs a). queue_ok j \<Longrightarrow> \<forall>e \<in> set es. worker_event_ok e \<Longrightarrow>
   list_emb later (jobs (run es a)) (jobs a)"
proof (induction es arbitrary: a)
  case Nil
  show ?case by (simp add: list_emb_refl later_refl)
next
  case (Cons e es)
  from Cons.prems have "worker_event_ok e" by simp
  with Cons.prems(1) have s: "list_emb later (jobs (step e a)) (jobs a)"
    "\<forall>j \<in> set (jobs (step e a)). queue_ok j" using step_later by blast+
  from Cons.prems(2) have "\<forall>e \<in> set es. worker_event_ok e" by simp
  with s(2) have "list_emb later (jobs (run es (step e a))) (jobs (step e a))" by (rule Cons.IH)
  from this s(1) have "list_emb later (jobs (run es (step e a))) (jobs a)"
    by (rule list_emb_trans [rotated]) (rule later_trans)
  then show ?case by simp
qed

lemma after_spawn_no_running: "Status ''Uploading...'' \<notin> set (after_spawn p)"
proof -
  have "Status ''Uploading...'' \<notin> set (read_lines ls)" for ls
    by (auto simp: read_lines_def)
  then show ?thesis by (cases p) (auto simp: after_spawn_def exit_status_def)
qed

lemma run_upload_mp_no_running: "Status ''Uploading...'' \<notin> set (run_upload_mp py ar p)"
  by (rule run_upload_mp_cases [of py ar p]) (simp_all add: after_spawn_no_running)

lemma launch_jobs:
  assumes "selected_folder f \<noteq> []" and "path_exists (selected_folder f)"
  shows "jobs (launch_upload_job path_exists (Some sp) f a) \<noteq> []
    \<and> status (last (jobs (launch_upload_job path_exists (Some sp) f a))) = ''Uploading...''
    \<and> queue (last (jobs (launch_upload_job path_exists (Some sp) f a))) = []
    \<and> is_alive (process (last (jobs (launch_upload_job path_exists (Some sp) f a))))"
  using assms
  by (simp add: launch_upload_job_def Let_def monitor_prunes pruned_def drain_job_def)

section \<open>Fields that \<open>load_settings\<close> leaves alone\<close>

lemma set_strings_missing:
  "map_of (rev d) ''username'' = None \<Longrightarrow> var_username (set_strings d v) = var_username v"
  "map_of (rev d) ''password'' = None \<Longrightarrow> var_password (set_strings d v) = var_password v"
  "map_of (rev d) ''descriptor'' = None \<Longrightarrow> var_descriptor (set_strings d v) = var_descriptor v"
  "map_of (rev d) ''origin'' = None \<Longrightarrow> var_origin (set_strings d v) = var_origin v"
  "map_of (rev d) ''avatar'' = None \<Longrightarrow> var_avatar (set_strings d v) = var_avatar v"
  "map_of (rev d) ''list_id'' = None \<Longrightarrow> var_list_id (set_strings d v) = var_list_id v"
  "var_warped (set_strings d v) = var_warped v"
  "var_name_as_userdata (set_strings d v) = var_name_as_userdata v"
  "var_multi_face_policy (set_strings d v) = var_multi_face_policy v"
  by (simp_all add: set_strings_def dict_get_def)

lemma set_warped_fields:
  assumes "set_warped gb d v = Inr v'"
  shows "var_username v' = var_username v" "var_password v' = var_password v"
    "var_descriptor v' = var_descriptor v" "var_origin v' = var_origin v"
    "var_avatar v' = var_avatar v" "var_list_id v' = var_list_id v"
    "var_name_as_userdata v' = var_name_as_userdata v"
    "var_multi_face_policy v' = var_multi_face_policy v"
    "map_of (rev d) ''warped'' = None \<Longrightarrow> var_warped v' = var_warped v"
  using assms by (auto simp: set_warped_def split: option.splits sum.splits)

lemma set_name_as_userdata_fields:
  assumes "set_name_as_userdata gb d v = Inr v'"
  shows "var_username v' = var_username v" "var_password v' = var_password v"
    "var_descriptor v' = var_descriptor v" "var_origin v' = var_origin v"
    "var_avatar v' = var_avatar v" "var_list_id v' = var_list_id v"
    "var_warped v' = var_warped v"
    "var_multi_face_policy v' = var_multi_face_policy v"
    "map_of (rev d) ''name_as_userdata'' = None \<Longrightarrow> var_name_as_userdata v' = var_name_as_userdata v"
  using assms by (auto simp: set_name_as_userdata_def split: option.splits sum.splits)

lemma load_dict_cases:
  obtains (w) e where "set_warped gb d (set_strings d v) = Inl e"
      "load_settings gb ng (Parsed (JDict d)) v = (set_strings d v, [''Could not load settings: '' @ e])"
  | (n) v2 e where "set_warped gb d (set_strings d v) = Inr v2"
      "set_name_as_userdata gb d v2 = Inl e"
      "load_settings gb ng (Parsed (JDict d)) v = (v2, [''Could not load settings: '' @ e])"
  | (ok) v2 v3 where "set_warped gb d (set_strings d v) = Inr v2"
      "set_name_as_userdata gb d v2 = Inr v3"
      "load_settings gb ng (Parsed (JDict d)) v =
         (v3\<lparr>var_multi_face_policy := dict_get d ''multi_face_policy'' (JInt 1)\<rparr>,
          [''Settings for Gelecek Folder Uploader loaded successfully''])"
proof (cases "set_warped gb d (set_strings d v)")
  case (Inl e)
  then show ?thesis using w by (simp add: load_settings_def)
next
  case (Inr v2)
  show ?thesis
  proof (cases "set_name_as_userdata gb d v2")
    case (Inl e)
    with Inr show ?thesis using n by (simp add: load_settings_def)
  next
    case r: (Inr v3)
    with Inr show ?thesis using ok by (simp add: load_settings_def)
  qed
qed

lemma load_missing_username:
  "map_of (rev d) ''username'' = None \<Longrightarrow>
   var_username (fst (load_settings gb ng (Parsed (JDict d)) v)) = var_username v"
  by (rule load_dict_cases [of gb d v ng])
     (simp_all add: set_strings_missing set_warped_fields set_name_as_userdata_fields)

lemma load_missing_password:
  "map_of (rev d) ''password'' = None \<Longrightarrow>
   var_password (fst (load_settings gb ng (Parsed (JDict d)) v)) = var_password v"
  by (rule load_dict_cases [of gb d v ng])
     (simp_all add: set_strings_missing set_warped_fields set_name_as_userdata_fields)

lemma load_missing_descriptor:
  "map_of (rev d) ''descriptor'' = None \<Longrightarrow>
   var_descriptor (fst (load_settings gb ng (Parsed (JDict d)) v)) = var_descriptor v"
  by (rule load_dict_cases [of gb d v ng])
     (simp_all add: set_strings_missing set_warped_fields set_name_as_userdata_fields)

lemma load_missing_origin:
  "map_of (rev d) ''origin'' = None \<Longrightarrow>
   var_origin (fst (load_settings gb ng (Parsed (JDict d)) v)) = var_origin v"
  by (rule load_dict_cases [of gb d v ng])
     (simp_all add: set_strings_missing set_warped_fields set_name_as_userdata_fields)

lemma load_missing_avatar:
  "map_of (rev d) ''avatar'' = None \<Longrightarrow>
   var_avatar (fst (load_settings gb ng (Parsed (JDict d)) v)) = var_avatar v"
  by (rule load_dict_cases [of gb d v ng])
     (simp_all add: set_strings_missing set_warped_fields set_name_as_userdata_fields)

lemma load_missing_list_id:
  "map_of (rev d) ''list_id'' = None \<Longrightarrow>
   var_list_id (fst (load_settings gb ng (Parsed (JDict d)) v)) = var_list_id v"
  by (rule load_dict_cases [of gb d v ng])
     (simp_all add: set_strings_missing set_warped_fields set_name_as_userdata_fields)

lemma load_missing_warped:
  "map_of (rev d) ''warped'' = None \<Longrightarrow>
   var_warped (fst (load_settings gb ng (Parsed (JDict d)) v)) = var_warped v"
  by (rule load_dict_cases [of gb d v ng])
     (simp_all add: set_strings_missing set_warped_fields set_name_as_userdata_fields)

lemma load_missing_name_as_userdata:
  "map_of (rev d) ''name_as_userdata'' = None \<Longrightarrow>
   var_name_as_userdata (fst (load_settings gb ng (Parsed (JDict d)) v)) = var_name_as_userdata v"
  by (rule load_dict_cases [of gb d v ng])
     (simp_all add: set_strings_missing set_warped_fields set_name_as_userdata_fields)

lemma load_missing_multi_face_policy:
  "map_of (rev d) ''multi_face_policy'' = None \<Longrightarrow>
   var_multi_face_policy (fst (load_settings gb ng (Parsed (JDict d)) v))
     \<in> {JInt 1, var_multi_face_policy v}"
  by (rule load_dict_cases [of gb d v ng])
     (simp_all add: set_strings_missing set_warped_fields set_name_as_userdata_fields dict_get_def)

lemma load_not_dict:
  "(\<forall>d. x \<noteq> JDict d) \<Longrightarrow>
   load_settings gb ng (Parsed x) v = (v, [''Could not load settings: '' @ ng x])"
  by (cases x) (simp_all add: load_settings_def)

lemmas ex_defs = example_running_app_def example_app_def example_job_def example_process_def
  never_raises_def

section \<open>The example configuration\<close>

lemma py_str_1: "py_str 1 = Inr ''1''"
  by (simp add: py_str_def int_max_str_digits_def str_int_def str_nat.simps [of "Suc 0"]
      digit_char_def)

lemma example_cmd_eq: "cmd ''python3'' example_args = Inr example_cmd"
  by (simp add: cmd_def example_args_def example_cmd_def py_str_1)

lemma example_join: "py_join '' '' example_cmd = Inr example_line"
  by (simp add: py_join_def example_cmd_def example_line_def)

lemma example_run:
  "run_upload_mp ''python3'' example_args p =
     Output ''Starting upload from: /data/a'' # Output (''Command: '' @ example_line) #
     after_spawn p @ [Finished]"
  by (simp add: run_upload_mp_def example_cmd_eq example_join) (simp add: example_args_def)


lemma example_huge:
  "cmd ''python3'' (example_args\<lparr>multi_face_policy := huge_int\<rparr>) =
     Inl (''Exceeds the limit (4300 digits) for integer string conversion; '' @
          ''use sys.set_int_max_str_digits() to increase the limit'')"
  by (simp add: cmd_def example_args_def py_str_huge)

section \<open>Strings inside a command line\<close>





lemma count_list_options:
  "even (length xs) \<Longrightarrow>
   count_list xs x = count_list (map fst (options xs)) x + count_list (map snd (options xs)) x"
  by (induction xs rule: options.induct) simp_all

lemma count_list_distinct: "distinct xs \<Longrightarrow> x \<in> set xs \<Longrightarrow> count_list xs x = 1"
  by (induction xs) (auto simp: count_list_0_iff)

lemma cmd_shape:
  assumes "cmd py a = Inr c"
  shows "map fst (options (drop 2 c)) = map JStr required_flags"
    and "length c = 2 + 2 * length required_flags"
    and "take 2 c = [JStr py, JStr (script_path a)]"
    and "map_of (options (drop 2 c)) (JStr ''--warped'')
           = Some (JStr (if warped a then ''1'' else ''0''))"
    and "map_of (options (drop 2 c)) (JStr ''--name_as_userdata'')
           = Some (JStr (if name_as_userdata a then ''1'' else ''0''))"
    and "map snd (options (drop 2 c))
           = [JStr (username a), JStr (password a), JStr (source a),
              JStr (if warped a then ''1'' else ''0''),
              JStr (if name_as_userdata a then ''1'' else ''0''), JStr (descriptor a),
              JStr (origin a), JStr (avatar a), list_id a,
              JStr (str_int (multi_face_policy a)), JStr ''1'', JStr ''0.0'', JStr ''1'']"
proof -
  from assms obtain policy where p: "py_str (multi_face_policy a) = Inr policy"
    and c: "c = [JStr py, JStr (script_path a),
             JStr ''--login'', JStr (username a),
             JStr ''--password'', JStr (password a),
             JStr ''--source'', JStr (source a),
             JStr ''--warped'', JStr (if warped a then ''1'' else ''0''),
             JStr ''--name_as_userdata'', JStr (if name_as_userdata a then ''1'' else ''0''),
             JStr ''--descriptor'', JStr (descriptor a),
             JStr ''--origin'', JStr (origin a),
             JStr ''--avatar'', JStr (avatar a),
             JStr ''--list_id'', list_id a,
             JStr ''--multi_face_policy'', JStr policy,
             JStr ''--basic_attr'', JStr ''1'',
             JStr ''--score_threshold'', JStr ''0.0'',
             JStr ''--list_linked'', JStr ''1'']"
    by (auto simp: cmd_def split: sum.splits)
  from p have policy: "policy = str_int (multi_face_policy a)"
    by (auto simp: py_str_def split: if_splits)
  show "map fst (options (drop 2 c)) = map JStr required_flags"
    by (simp add: c required_flags_def)
  show "length c = 2 + 2 * length required_flags" by (simp add: c required_flags_def)
  show "take 2 c = [JStr py, JStr (script_path a)]" by (simp add: c)
  show "map_of (options (drop 2 c)) (JStr ''--warped'')
           = Some (JStr (if warped a then ''1'' else ''0''))" by (simp add: c)
  show "map_of (options (drop 2 c)) (JStr ''--name_as_userdata'')
           = Some (JStr (if name_as_userdata a then ''1'' else ''0''))" by (simp add: c)
  show "map snd (options (drop 2 c))
           = [JStr (username a), JStr (password a), JStr (source a),
              JStr (if warped a then ''1'' else ''0''),
              JStr (if name_as_userdata a then ''1'' else ''0''), JStr (descriptor a),
              JStr (origin a), JStr (avatar a), list_id a,
              JStr (str_int (multi_face_policy a)), JStr ''1'', JStr ''0.0'', JStr ''1'']"
    by (simp add: c policy)
qed

lemma distinct_flags: "distinct required_flags"
  by (simp add: required_flags_def)

lemma cmd_counts:
  assumes "cmd py a = Inr c"
    and "\<forall>v \<in> set (take 2 c @ map snd (options (drop 2 c))). v \<notin> set (map JStr required_flags)"
    and "f \<in> set required_flags"
  shows "count_list c (JStr f) = 1"
proof -
  from cmd_shape(2) [OF assms(1)] have "even (length (drop 2 c))" by simp
  then have "count_list (drop 2 c) (JStr f) =
      count_list (map fst (options (drop 2 c))) (JStr f)
      + count_list (map snd (options (drop 2 c))) (JStr f)" by (rule count_list_options)
  moreover have "count_list c (JStr f) = count_list (take 2 c) (JStr f) + count_list (drop 2 c) (JStr f)"
    by (metis append_take_drop_id count_list_append)
  moreover from assms(3) have m: "JStr f \<in> set (map JStr required_flags)" by simp
  with assms(2) have "JStr f \<notin> set (take 2 c)" "JStr f \<notin> set (map snd (options (drop 2 c)))"
    by auto
  then have "count_list (take 2 c) (JStr f) = 0"
    "count_list (map snd (options (drop 2 c))) (JStr f) = 0"
    by (simp_all only: count_list_0_iff not_False_eq_True)
  moreover have "distinct (map JStr required_flags)"
    by (simp add: distinct_map distinct_flags inj_on_def)
  from this m have "count_list (map JStr required_flags) (JStr f) = 1"
    by (rule count_list_distinct)
  ultimately show ?thesis by (simp add: cmd_shape(1) [OF assms(1)])
qed

lemma cmd_raises_iff:
  "(\<exists>e. cmd py a = Inl e) \<longleftrightarrow> int_max_str_digits < length (str_nat (nat \<bar>multi_face_policy a\<bar>))"
  by (auto simp: cmd_def py_str_def split: sum.splits if_splits)

section \<open>The messages of one run of the worker\<close>

text \<open>
  C1 as the source has it. The external process is started when the command list has been
  built and joined. When it is started, its output is read to the end without an
  exception and it exits (\<open>Exits ls rc\<close>), the worker puts exactly one \<open>status\<close> message
  on the queue; it comes after every output line, directly before \<open>finished\<close>. It is the
  success text when the return code is 0 and the failure text with the return code in
  decimal otherwise, and the return code can be read back from it: different return
  codes give different status texts. When reading the output raises (\<open>ReadRaises\<close>), the
  worker never waits for the process: it puts an \<open>error\<close> message and no \<open>status\<close>
  message, whatever the process exits with.
\<close>

theorem status_after_exit:
  "(cmd py a = Inr c \<and> py_join '' '' c = Inr line \<longrightarrow>
      filter is_status (run_upload_mp py a (Exits ls rc)) = [Status (exit_status rc)]
      \<and> drop (length (run_upload_mp py a (Exits ls rc)) - 2) (run_upload_mp py a (Exits ls rc))
          = [Status (exit_status rc), Finished]
      \<and> filter is_status (run_upload_mp py a (ReadRaises ls e)) = []
      \<and> drop (length (run_upload_mp py a (ReadRaises ls e)) - 2) (run_upload_mp py a (ReadRaises ls e))
          = [Error (''Error running upload: '' @ e), Finished])
   \<and> exit_status 0 = ''Upload completed successfully!''
   \<and> (rc \<noteq> 0 \<longrightarrow> exit_status rc = ''Upload failed with code '' @ str_int rc)
   \<and> (\<forall>rc'. exit_status rc' = exit_status rc \<longrightarrow> rc' = rc)"
proof -
  have r: "filter is_status (run_upload_mp py a (Exits ls rc)) = [Status (exit_status rc)]
      \<and> drop (length (run_upload_mp py a (Exits ls rc)) - 2) (run_upload_mp py a (Exits ls rc))
          = [Status (exit_status rc), Finished]
      \<and> filter is_status (run_upload_mp py a (ReadRaises ls e)) = []
      \<and> drop (length (run_upload_mp py a (ReadRaises ls e)) - 2) (run_upload_mp py a (ReadRaises ls e))
          = [Error (''Error running upload: '' @ e), Finished]"
    if "cmd py a = Inr c" and "py_join '' '' c = Inr line"
    using that by (simp add: run_upload_mp_def after_spawn_def)
  have z: "exit_status 0 = ''Upload completed successfully!''" by (simp add: exit_status_def)
  have n: "rc \<noteq> 0 \<longrightarrow> exit_status rc = ''Upload failed with code '' @ str_int rc"
    by (simp add: exit_status_def)
  from r z n exit_status_inj show ?thesis by blast
qed

theorem status_after_exit_witness:
  "cmd ''python3'' example_args = Inr example_cmd
   \<and> py_join '' '' example_cmd = Inr example_line
   \<and> (3::int) \<noteq> 0
   \<and> filter is_status (run_upload_mp ''python3'' example_args (Exits [''sent 1 '', ''sent 2''] 3))
       = [Status ''Upload failed with code 3'']
   \<and> filter is_status (run_upload_mp ''python3'' example_args (Exits [''sent 1 ''] 0))
       = [Status ''Upload completed successfully!'']
   \<and> filter is_status (run_upload_mp ''python3'' example_args (ReadRaises [''sent 1 ''] ''bad byte''))
       = []
   \<and> exit_status 4 \<noteq> exit_status 3"
proof -
  have n: "(3::int) \<noteq> 0" by simp
  have s3: "str_int 3 = ''3''"
    by (simp add: str_int_def str_nat.simps [of 3] digit_char_def)
  note t3 = status_after_exit [of "''python3''" example_args example_cmd example_line
      "[''sent 1 '', ''sent 2'']" 3 "''bad byte''"]
  note t0 = status_after_exit [of "''python3''" example_args example_cmd example_line
      "[''sent 1 '']" 0 "''bad byte''"]
  from t3 have "exit_status 4 = exit_status 3 \<longrightarrow> (4::int) = 3" by blast
  then have e4: "exit_status 4 \<noteq> exit_status 3" by auto
  from t3 n have f3: "exit_status 3 = ''Upload failed with code '' @ str_int 3" by blast
  from t3 example_cmd_eq example_join
  have "filter is_status (run_upload_mp ''python3'' example_args (Exits [''sent 1 '', ''sent 2''] 3))
       = [Status (exit_status 3)]" by blast
  moreover from t0 example_cmd_eq example_join
  have "filter is_status (run_upload_mp ''python3'' example_args (Exits [''sent 1 ''] 0))
       = [Status (exit_status 0)]" by blast
  moreover from t0 example_cmd_eq example_join
  have "filter is_status (run_upload_mp ''python3'' example_args (ReadRaises [''sent 1 ''] ''bad byte''))
       = []" by blast
  moreover from t0 have "exit_status 0 = ''Upload completed successfully!''" by blast
  ultimately show ?thesis using n e4 f3 s3 example_cmd_eq example_join by simp
qed

text \<open>
  C1 as stated (every process that starts and exits gets its one status message) fails:
  a process was started and has written a line, reading its output then raises, and the
  worker puts an error message and finished but no status message, although the process
  exits.
\<close>

theorem no_status_when_reading_raises_counterexample:
  "run_upload_mp ''python3'' example_args (ReadRaises [''sent 1 ''] ''bad byte'')
     = [Output ''Starting upload from: /data/a'', Output (''Command: '' @ example_line),
        Output ''sent 1'', Error ''Error running upload: bad byte'', Finished]
   \<and> filter is_status
        (run_upload_mp ''python3'' example_args (ReadRaises [''sent 1 ''] ''bad byte'')) = []"
  by (simp add: example_run after_spawn_def read_lines_def strip_def isspace_def)

text \<open>
  C2. Whatever happens to the external process (\<open>Popen\<close> raises, reading raises, or the
  process exits with any return code), and also when the command cannot be built or
  joined, the worker puts \<open>finished\<close> on the queue, once, and it is the last message.
\<close>

theorem finished_is_last:
  "last (run_upload_mp py a p) = Finished \<and> count_list (run_upload_mp py a p) Finished = 1"
  by (rule run_upload_mp_cases [of py a p]) simp_all

text \<open>
  C8 as the source has it. The command list is a function of the configuration alone.
  Building it raises exactly when \<open>multi_face_policy\<close> has more digits than the
  interpreter's limit. When it is built, it is the interpreter and the script followed by
  a list of (option, value) pairs whose option names are exactly the thirteen documented
  flags, in the documented order and without repetition, so each flag occurs exactly once
  as an option name; \<open>--warped\<close> and \<open>--name_as_userdata\<close> carry \<open>1\<close> for true and
  \<open>0\<close> for false, and every other field of the configuration is the value of its flag,
  copied as it is. When no value (and neither the interpreter nor the script) is itself
  one of the flags, every flag occurs exactly once in the whole list. Nothing here
  depends on the folder.
\<close>

theorem cmd_flags:
  "(cmd py a = Inr c \<longrightarrow>
      map fst (options (drop 2 c)) = map JStr required_flags
      \<and> length c = 2 + 2 * length required_flags
      \<and> take 2 c = [JStr py, JStr (script_path a)]
      \<and> map_of (options (drop 2 c)) (JStr ''--warped'')
           = Some (JStr (if warped a then ''1'' else ''0''))
      \<and> map_of (options (drop 2 c)) (JStr ''--name_as_userdata'')
           = Some (JStr (if name_as_userdata a then ''1'' else ''0''))
      \<and> map snd (options (drop 2 c))
           = [JStr (username a), JStr (password a), JStr (source a),
              JStr (if warped a then ''1'' else ''0''),
              JStr (if name_as_userdata a then ''1'' else ''0''), JStr (descriptor a),
              JStr (origin a), JStr (avatar a), list_id a,
              JStr (str_int (multi_face_policy a)), JStr ''1'', JStr ''0.0'', JStr ''1'']
      \<and> ((\<forall>v \<in> set (take 2 c @ map snd (options (drop 2 c))).
              v \<notin> set (map JStr required_flags)) \<longrightarrow>
           (\<forall>f \<in> set required_flags. count_list c (JStr f) = 1)))
   \<and> distinct required_flags
   \<and> ((\<exists>e. cmd py a = Inl e) \<longleftrightarrow>
        int_max_str_digits < length (str_nat (nat \<bar>multi_face_policy a\<bar>)))"
  using cmd_shape [of py a c] cmd_counts [of py a c] distinct_flags cmd_raises_iff [of py a]
  by blast

theorem cmd_flags_witness:
  "cmd ''python3'' example_args = Inr example_cmd
   \<and> list_all (\<lambda>v. v \<notin> set (map JStr required_flags))
        (take 2 example_cmd @ map snd (options (drop 2 example_cmd)))
   \<and> map fst (options (drop 2 example_cmd)) = map JStr required_flags
   \<and> count_list example_cmd (JStr ''--login'') = 1
   \<and> count_list example_cmd (JStr ''--password'') = 1
   \<and> count_list example_cmd (JStr ''--list_linked'') = 1"
proof -
  note t = cmd_flags [of "''python3''" example_args example_cmd]
  have h: "\<forall>v \<in> set (take 2 example_cmd @ map snd (options (drop 2 example_cmd))).
      v \<notin> set (map JStr required_flags)"
    by (simp add: example_cmd_def required_flags_def)
  from t example_cmd_eq h have a: "\<forall>f \<in> set required_flags. count_list example_cmd (JStr f) = 1"
    by blast
  have "''--login'' \<in> set required_flags" "''--password'' \<in> set required_flags"
    "''--list_linked'' \<in> set required_flags"
    by (simp_all add: required_flags_def)
  with a have c: "count_list example_cmd (JStr ''--login'') = 1"
    "count_list example_cmd (JStr ''--password'') = 1"
    "count_list example_cmd (JStr ''--list_linked'') = 1" by blast+
  from t example_cmd_eq have m: "map fst (options (drop 2 example_cmd)) = map JStr required_flags"
    by blast
  from h have "list_all (\<lambda>v. v \<notin> set (map JStr required_flags))
        (take 2 example_cmd @ map snd (options (drop 2 example_cmd)))"
    by (simp only: list_all_iff)
  with example_cmd_eq m c show ?thesis by blast
qed

text \<open>
  C8 as stated (the vector contains every flag exactly once, for every configuration)
  fails: the values are copied as they are, so a user name that reads \<open>--login\<close> puts
  that flag into the vector a second time; and for a \<open>multi_face_policy\<close> of 4301
  digits no vector is produced at all.
\<close>

theorem flag_twice_counterexample:
  "cmd ''python3'' (example_args\<lparr>username := ''--login''\<rparr>)
     = Inr (example_cmd[3 := JStr ''--login''])
   \<and> count_list (example_cmd[3 := JStr ''--login'']) (JStr ''--login'') = 2
   \<and> cmd ''python3'' (example_args\<lparr>multi_face_policy := huge_int\<rparr>)
     = Inl (''Exceeds the limit (4300 digits) for integer string conversion; '' @
            ''use sys.set_int_max_str_digits() to increase the limit'')"
proof -
  have "cmd ''python3'' (example_args\<lparr>username := ''--login''\<rparr>)
     = Inr (example_cmd[3 := JStr ''--login''])"
    by (simp add: cmd_def example_args_def example_cmd_def py_str_1)
  moreover have "count_list (example_cmd[3 := JStr ''--login'']) (JStr ''--login'') = 2"
    by (simp add: example_cmd_def)
  ultimately show ?thesis using example_huge by simp
qed




section \<open>Loading the settings\<close>

text \<open>
  C9. \<open>load_settings\<close> raises nothing: every exception is caught and logged, so the
  model is a total function that returns the variables and the log lines. When the file
  is absent the variables are unchanged and nothing is logged; when opening or parsing
  raises, or the file parses to something that is no dictionary, the variables are
  unchanged and one line is logged. So on the freshly created variables every one of
  these cases yields the built-in defaults. For a parsed dictionary, each of the nine keys
  that is missing leaves its variable at the built-in default.
\<close>

theorem load_settings_defaults:
  "load_settings gb ng Absent v = (v, [])
   \<and> load_settings gb ng (LoadRaises e) v = (v, [''Could not load settings: '' @ e])
   \<and> ((\<forall>d. x \<noteq> JDict d) \<longrightarrow>
        load_settings gb ng (Parsed x) v = (v, [''Could not load settings: '' @ ng x]))
   \<and> (map_of (rev d) ''username'' = None \<longrightarrow>
        var_username (fst (load_settings gb ng (Parsed (JDict d)) init_vars)) = JStr [])
   \<and> (map_of (rev d) ''password'' = None \<longrightarrow>
        var_password (fst (load_settings gb ng (Parsed (JDict d)) init_vars)) = JStr [])
   \<and> (map_of (rev d) ''descriptor'' = None \<longrightarrow>
        var_descriptor (fst (load_settings gb ng (Parsed (JDict d)) init_vars)) = JStr ''1'')
   \<and> (map_of (rev d) ''origin'' = None \<longrightarrow>
        var_origin (fst (load_settings gb ng (Parsed (JDict d)) init_vars))
          = JStr ''http://127.0.0.1:5000'')
   \<and> (map_of (rev d) ''avatar'' = None \<longrightarrow>
        var_avatar (fst (load_settings gb ng (Parsed (JDict d)) init_vars)) = JStr ''1'')
   \<and> (map_of (rev d) ''list_id'' = None \<longrightarrow>
        var_list_id (fst (load_settings gb ng (Parsed (JDict d)) init_vars))
          = JStr ''90936600-d44b-4717-9b33-d685faf00616'')
   \<and> (map_of (rev d) ''warped'' = None \<longrightarrow>
        var_warped (fst (load_settings gb ng (Parsed (JDict d)) init_vars)) = False)
   \<and> (map_of (rev d) ''name_as_userdata'' = None \<longrightarrow>
        var_name_as_userdata (fst (load_settings gb ng (Parsed (JDict d)) init_vars)) = False)
   \<and> (map_of (rev d) ''multi_face_policy'' = None \<longrightarrow>
        var_multi_face_policy (fst (load_settings gb ng (Parsed (JDict d)) init_vars)) = JInt 1)"
proof -
  have a: "load_settings gb ng Absent v = (v, [])" by (simp add: load_settings_def)
  have b: "load_settings gb ng (LoadRaises e) v = (v, [''Could not load settings: '' @ e])"
    by (simp add: load_settings_def)
  have m: "map_of (rev d) ''multi_face_policy'' = None \<longrightarrow>
        var_multi_face_policy (fst (load_settings gb ng (Parsed (JDict d)) init_vars)) = JInt 1"
    using load_missing_multi_face_policy [of d gb ng init_vars] by (auto simp: init_vars_def)
  have i: "var_username init_vars = JStr []" "var_password init_vars = JStr []"
    "var_descriptor init_vars = JStr ''1''" "var_origin init_vars = JStr ''http://127.0.0.1:5000''"
    "var_avatar init_vars = JStr ''1''"
    "var_list_id init_vars = JStr ''90936600-d44b-4717-9b33-d685faf00616''"
    "var_warped init_vars = False" "var_name_as_userdata init_vars = False"
    by (simp_all add: init_vars_def)
  show ?thesis
    using a b m load_not_dict [of x gb ng v]
      load_missing_username [of d gb ng init_vars] load_missing_password [of d gb ng init_vars]
      load_missing_descriptor [of d gb ng init_vars] load_missing_origin [of d gb ng init_vars]
      load_missing_avatar [of d gb ng init_vars] load_missing_list_id [of d gb ng init_vars]
      load_missing_warped [of d gb ng init_vars]
      load_missing_name_as_userdata [of d gb ng init_vars]
    by (simp only: i) blast
qed

theorem load_settings_defaults_witness:
  "(\<forall>d. JList [] \<noteq> JDict d)
   \<and> load_settings example_getboolean example_no_get (Parsed (JList [])) init_vars
       = (init_vars, [''Could not load settings: object has no attribute get''])
   \<and> map_of (rev [(''theme'', JStr ''dark'')]) ''username'' = None
   \<and> map_of (rev [(''theme'', JStr ''dark'')]) ''password'' = None
   \<and> map_of (rev [(''theme'', JStr ''dark'')]) ''descriptor'' = None
   \<and> map_of (rev [(''theme'', JStr ''dark'')]) ''origin'' = None
   \<and> map_of (rev [(''theme'', JStr ''dark'')]) ''avatar'' = None
   \<and> map_of (rev [(''theme'', JStr ''dark'')]) ''list_id'' = None
   \<and> map_of (rev [(''theme'', JStr ''dark'')]) ''warped'' = None
   \<and> map_of (rev [(''theme'', JStr ''dark'')]) ''name_as_userdata'' = None
   \<and> map_of (rev [(''theme'', JStr ''dark'')]) ''multi_face_policy'' = None
   \<and> fst (load_settings example_getboolean example_no_get
             (Parsed (JDict [(''theme'', JStr ''dark'')])) init_vars) = init_vars"
proof -
  let ?r = "fst (load_settings example_getboolean example_no_get
             (Parsed (JDict [(''theme'', JStr ''dark'')])) init_vars)"
  note t = load_settings_defaults [of example_getboolean example_no_get init_vars "''x''"
      "JList []" "[(''theme'', JStr ''dark'')]"]
  have nd: "\<forall>d. JList [] \<noteq> JDict d" by simp
  from t nd have l: "load_settings example_getboolean example_no_get (Parsed (JList [])) init_vars
       = (init_vars, [''Could not load settings: object has no attribute get''])"
    by (simp add: example_no_get_def)
  from t have f: "var_username ?r = JStr []" "var_password ?r = JStr []"
    "var_descriptor ?r = JStr ''1''" "var_origin ?r = JStr ''http://127.0.0.1:5000''"
    "var_avatar ?r = JStr ''1''" "var_list_id ?r = JStr ''90936600-d44b-4717-9b33-d685faf00616''"
    "var_warped ?r = False" "var_name_as_userdata ?r = False" "var_multi_face_policy ?r = JInt 1"
    by simp_all
  have "?r = init_vars"
    by (rule tkvars.equality) (simp_all only: f, simp_all add: init_vars_def)
  with nd l show ?thesis by simp
qed

section \<open>When the poll loop goes on\<close>

text \<open>
  C5 as the source has it. A poll schedules the next poll exactly when the worker process
  of at least one tracked job is alive; then at least one job stays tracked. When no
  worker is alive it schedules nothing, stops the progress bar, disables Stop All, sets
  the status line to Ready and logs the closing line; the jobs that are still tracked
  then are jobs whose worker is not alive and whose status is not the \<open>Finished\<close> mark.
\<close>

theorem reschedule_iff_alive:
  "((\<exists>j \<in> set (jobs a). is_alive (process j)) \<longrightarrow>
      after_scheduled (monitor_all_outputs a) = after_scheduled a + 1
      \<and> progress_running (monitor_all_outputs a) = progress_running a
      \<and> jobs (monitor_all_outputs a) \<noteq> [])
   \<and> (\<not> (\<exists>j \<in> set (jobs a). is_alive (process j)) \<longrightarrow>
      after_scheduled (monitor_all_outputs a) = after_scheduled a
      \<and> \<not> progress_running (monitor_all_outputs a)
      \<and> \<not> stop_btn_enabled (monitor_all_outputs a)
      \<and> status_var (monitor_all_outputs a) = ''Ready''
      \<and> last (log_text (monitor_all_outputs a)) = ''=== All Upload Jobs Finished ===''
      \<and> (\<forall>j \<in> set (jobs (monitor_all_outputs a)).
            \<not> is_alive (process j) \<and> status j \<noteq> ''Finished''))"
proof (cases "\<exists>j \<in> set (jobs a). is_alive (process j)")
  case True
  from monitor_keeps_alive [OF True] have "jobs (monitor_all_outputs a) \<noteq> []" by auto
  with True monitor_alive [OF True] show ?thesis by simp
next
  case False
  with monitor_none_alive [OF False] monitor_left_over [OF False] show ?thesis by simp
qed

theorem reschedule_iff_alive_witness:
  "(\<exists>j \<in> set (jobs example_running_app). is_alive (process j))
   \<and> after_scheduled (monitor_all_outputs example_running_app) = 1
   \<and> jobs (monitor_all_outputs example_running_app) \<noteq> []
   \<and> \<not> (\<exists>j \<in> set (jobs (example_app [example_job (example_process False True) [] ''Stopped''])).
          is_alive (process j))
   \<and> after_scheduled (monitor_all_outputs
         (example_app [example_job (example_process False True) [] ''Stopped''])) = 0
   \<and> status_var (monitor_all_outputs
         (example_app [example_job (example_process False True) [] ''Stopped''])) = ''Ready''"
proof -
  have h1: "\<exists>j \<in> set (jobs example_running_app). is_alive (process j)"
    by (simp add: ex_defs)
  have h2: "\<not> (\<exists>j \<in> set (jobs (example_app [example_job (example_process False True) [] ''Stopped''])).
          is_alive (process j))"
    by (simp add: ex_defs)
  have z: "after_scheduled example_running_app = 0"
    "after_scheduled (example_app [example_job (example_process False True) [] ''Stopped'']) = 0"
    by (simp_all add: ex_defs)
  from reschedule_iff_alive [of example_running_app] h1 z
  have c1: "after_scheduled (monitor_all_outputs example_running_app) = 1
     \<and> jobs (monitor_all_outputs example_running_app) \<noteq> []" by simp
  from reschedule_iff_alive [of "example_app [example_job (example_process False True) [] ''Stopped'']"] h2 z
  have c2: "after_scheduled (monitor_all_outputs
         (example_app [example_job (example_process False True) [] ''Stopped''])) = 0
   \<and> status_var (monitor_all_outputs
         (example_app [example_job (example_process False True) [] ''Stopped''])) = ''Ready''"
    by simp
  from h1 h2 c1 c2 show ?thesis by blast
qed

text \<open>
  C5 as stated (the next poll is scheduled exactly when a job remains tracked) fails: a
  job that was stopped by Stop All and whose worker has exited stays tracked with status
  \<open>Stopped\<close>, and the poll schedules nothing and resets the interface.
\<close>

theorem tracked_not_rescheduled_counterexample:
  "jobs (run [StopAll never_raises, WorkerExit 0, Poll] example_running_app)
     = [example_job (example_process False True) [] ''Stopped'']
   \<and> after_scheduled (run [StopAll never_raises, WorkerExit 0] example_running_app) = 0
   \<and> after_scheduled (run [StopAll never_raises, WorkerExit 0, Poll] example_running_app) = 0
   \<and> \<not> progress_running (run [StopAll never_raises, WorkerExit 0, Poll] example_running_app)"
  by (simp add: ex_defs monitor_all_outputs_def stop_upload_def terminate_def Let_def)

section \<open>Cancelling a job\<close>

text \<open>
  C6 as the source has it. Both cancel operations look at the worker process, not at the
  status field. Stop Selected Job on a job whose worker is alive (and whose
  \<open>terminate()\<close> does not raise) calls \<open>terminate()\<close> and sets the status to
  \<open>Stopped\<close> whatever it was; it then logs the stop, or a failure when the list id cannot
  be formatted for the log line. When \<open>terminate()\<close> raises it only logs the failure. On a
  job whose worker is not alive it changes nothing but the log, where it reports that the
  job has already finished. Stop All signals and stops every job whose worker is alive and
  whose \<open>terminate()\<close> does not raise, and leaves every other job as it is: a
  \<open>terminate()\<close> that raises is passed over without a log line. It logs how many jobs it
  stopped, or, when it stopped none, that there is nothing to stop. Neither operation
  raises.
\<close>

theorem cancel_follows_liveness:
  "(idx < length (jobs a) \<and> is_alive (process (jobs a ! idx)) \<and> \<not> raises \<longrightarrow>
      jobs (stop_selected_job raises str_of (idx # rest) a) =
        (jobs a)[idx := (jobs a ! idx)
                    \<lparr>process := (process (jobs a ! idx))\<lparr>terminated := True\<rparr>,
                     status := ''Stopped''\<rparr>]
      \<and> log_text (stop_selected_job raises str_of (idx # rest) a) =
          log_text a @
            [case format_value str_of (job_list_id (jobs a ! idx)) of
               Inr lid \<Rightarrow> ''Stopped job for folder: '' @ folder (jobs a ! idx) @
                           '' (List ID: '' @ lid @ '')''
             | Inl e \<Rightarrow> ''Failed to stop job for folder: '' @ folder (jobs a ! idx)])
   \<and> (idx < length (jobs a) \<and> is_alive (process (jobs a ! idx)) \<and> raises \<longrightarrow>
      stop_selected_job raises str_of (idx # rest) a =
        a\<lparr>log_text := log_text a @ [''Failed to stop job for folder: '' @ folder (jobs a ! idx)]\<rparr>)
   \<and> (idx < length (jobs a) \<and> \<not> is_alive (process (jobs a ! idx)) \<longrightarrow>
      stop_selected_job raises str_of (idx # rest) a =
        a\<lparr>log_text := log_text a @ [''Job already finished: '' @ folder (jobs a ! idx)]\<rparr>)
   \<and> jobs (stop_upload rs a) =
        map (\<lambda>j. if is_alive (process j) \<and> \<not> rs j
                  then j\<lparr>process := (process j)\<lparr>terminated := True\<rparr>, status := ''Stopped''\<rparr>
                  else j) (jobs a)
   \<and> ((\<exists>j \<in> set (jobs a). is_alive (process j) \<and> \<not> rs j) \<longrightarrow>
        log_text (stop_upload rs a) =
          log_text a @
            [''Stopped '' @
             str_nat (length (filter (\<lambda>j. is_alive (process j) \<and> \<not> rs j) (jobs a))) @
             '' running upload job(s)'']
        \<and> status_var (stop_upload rs a) = ''Upload stopped'')
   \<and> (\<not> (\<exists>j \<in> set (jobs a). is_alive (process j) \<and> \<not> rs j) \<longrightarrow>
        stop_upload rs a = a\<lparr>log_text := log_text a @ [''No running jobs to stop.'']\<rparr>)"
proof -
  have 1: "idx < length (jobs a) \<and> is_alive (process (jobs a ! idx)) \<and> \<not> raises \<longrightarrow>
      jobs (stop_selected_job raises str_of (idx # rest) a) =
        (jobs a)[idx := (jobs a ! idx)
                    \<lparr>process := (process (jobs a ! idx))\<lparr>terminated := True\<rparr>,
                     status := ''Stopped''\<rparr>]
      \<and> log_text (stop_selected_job raises str_of (idx # rest) a) =
          log_text a @
            [case format_value str_of (job_list_id (jobs a ! idx)) of
               Inr lid \<Rightarrow> ''Stopped job for folder: '' @ folder (jobs a ! idx) @
                           '' (List ID: '' @ lid @ '')''
             | Inl e \<Rightarrow> ''Failed to stop job for folder: '' @ folder (jobs a ! idx)]"
    by (simp add: stop_selected_job_def terminate_def Let_def split: sum.splits)
  have 2: "idx < length (jobs a) \<and> is_alive (process (jobs a ! idx)) \<and> raises \<longrightarrow>
      stop_selected_job raises str_of (idx # rest) a =
        a\<lparr>log_text := log_text a @ [''Failed to stop job for folder: '' @ folder (jobs a ! idx)]\<rparr>"
    by (simp add: stop_selected_job_def Let_def)
  have 3: "idx < length (jobs a) \<and> \<not> is_alive (process (jobs a ! idx)) \<longrightarrow>
      stop_selected_job raises str_of (idx # rest) a =
        a\<lparr>log_text := log_text a @ [''Job already finished: '' @ folder (jobs a ! idx)]\<rparr>"
    by (simp add: stop_selected_job_def Let_def)
  have 4: "jobs (stop_upload rs a) =
        map (\<lambda>j. if is_alive (process j) \<and> \<not> rs j
                  then j\<lparr>process := (process j)\<lparr>terminated := True\<rparr>, status := ''Stopped''\<rparr>
                  else j) (jobs a)"
    by (simp add: stop_upload_jobs_map terminate_def)
  have 5: "log_text (stop_upload rs a) =
          log_text a @
            [''Stopped '' @
             str_nat (length (filter (\<lambda>j. is_alive (process j) \<and> \<not> rs j) (jobs a))) @
             '' running upload job(s)'']
        \<and> status_var (stop_upload rs a) = ''Upload stopped''"
    if "\<exists>j \<in> set (jobs a). is_alive (process j) \<and> \<not> rs j"
  proof -
    from that have "filter (\<lambda>j. is_alive (process j) \<and> \<not> rs j) (jobs a) \<noteq> []"
      by (simp add: filter_empty_conv)
    then show ?thesis by (simp add: stop_upload_def stop_jobs_eq)
  qed
  have 6: "stop_upload rs a = a\<lparr>log_text := log_text a @ [''No running jobs to stop.'']\<rparr>"
    if n: "\<not> (\<exists>j \<in> set (jobs a). is_alive (process j) \<and> \<not> rs j)"
  proof -
    from n have f: "filter (\<lambda>j. is_alive (process j) \<and> \<not> rs j) (jobs a) = []"
      by (simp add: filter_empty_conv)
    from n have "map (\<lambda>j. if is_alive (process j) \<and> \<not> rs j
        then (terminate j)\<lparr>status := ''Stopped''\<rparr> else j) (jobs a) = map (\<lambda>j. j) (jobs a)"
      by (intro map_cong) auto
    with f show ?thesis by (simp add: stop_upload_def stop_jobs_eq)
  qed
  from 1 2 3 4 5 6 show ?thesis by blast
qed

theorem cancel_follows_liveness_witness:
  "0 < length (jobs example_running_app)
   \<and> is_alive (process (jobs example_running_app ! 0))
   \<and> jobs (stop_selected_job False example_str_of [0] example_running_app)
       = [example_job (example_process True True) [] ''Stopped'']
   \<and> log_text (stop_selected_job False example_str_of [0] example_running_app)
       = [''Stopped job for folder: /data/a (List ID: L1)'']
   \<and> jobs (stop_selected_job False example_str_of [0]
         (example_app [(example_job (example_process True False) [] ''Uploading...'')
                         \<lparr>job_list_id := JInt huge_int\<rparr>]))
       = [(example_job (example_process True True) [] ''Stopped'')\<lparr>job_list_id := JInt huge_int\<rparr>]
   \<and> log_text (stop_selected_job False example_str_of [0]
         (example_app [(example_job (example_process True False) [] ''Uploading...'')
                         \<lparr>job_list_id := JInt huge_int\<rparr>]))
       = [''Failed to stop job for folder: /data/a'']
   \<and> jobs (stop_selected_job True example_str_of [0] example_running_app)
       = jobs example_running_app
   \<and> 0 < length (jobs (example_app [example_job (example_process False False) [] ''Uploading...'']))
   \<and> \<not> is_alive (process
         (jobs (example_app [example_job (example_process False False) [] ''Uploading...'']) ! 0))
   \<and> jobs (stop_selected_job False example_str_of [0]
         (example_app [example_job (example_process False False) [] ''Uploading...'']))
       = [example_job (example_process False False) [] ''Uploading...'']
   \<and> (\<exists>j \<in> set (jobs example_running_app). is_alive (process j) \<and> \<not> never_raises j)
   \<and> jobs (stop_upload never_raises example_running_app)
       = [example_job (example_process True True) [] ''Stopped'']
   \<and> log_text (stop_upload never_raises example_running_app)
       = [''Stopped 1 running upload job(s)'']
   \<and> \<not> (\<exists>j \<in> set (jobs example_running_app). is_alive (process j) \<and> \<not> always_raises j)
   \<and> stop_upload always_raises example_running_app
       = example_running_app\<lparr>log_text := [''No running jobs to stop.'']\<rparr>"
proof -
  let ?d = "example_app [example_job (example_process False False) [] ''Uploading...'']"
  let ?h = "example_app [(example_job (example_process True False) [] ''Uploading...'')
                         \<lparr>job_list_id := JInt huge_int\<rparr>]"
  note t1 = cancel_follows_liveness [of 0 example_running_app False example_str_of "[]" never_raises]
  note t2 = cancel_follows_liveness [of 0 ?d False example_str_of "[]" never_raises]
  note t3 = cancel_follows_liveness [of 0 example_running_app True example_str_of "[]" always_raises]
  note t4 = cancel_follows_liveness [of 0 ?h False example_str_of "[]" never_raises]
  have h1: "0 < length (jobs example_running_app) \<and> is_alive (process (jobs example_running_app ! 0))"
    by (simp add: ex_defs)
  have h2: "0 < length (jobs ?d) \<and> \<not> is_alive (process (jobs ?d ! 0))"
    by (simp add: ex_defs)
  have h3: "\<exists>j \<in> set (jobs example_running_app). is_alive (process j) \<and> \<not> never_raises j"
    by (simp add: ex_defs)
  have h4: "\<not> (\<exists>j \<in> set (jobs example_running_app). is_alive (process j) \<and> \<not> always_raises j)"
    by (simp add: ex_defs always_raises_def)
  have h5: "0 < length (jobs ?h) \<and> is_alive (process (jobs ?h ! 0))"
    by (simp add: ex_defs)
  have f1: "format_value example_str_of (job_list_id (jobs example_running_app ! 0)) = Inr ''L1''"
    by (simp add: ex_defs format_value_def)
  have f5: "format_value example_str_of (job_list_id (jobs ?h ! 0)) =
      Inl (''Exceeds the limit (4300 digits) for integer string conversion; '' @
          ''use sys.set_int_max_str_digits() to increase the limit'')"
    by (simp add: ex_defs format_value_def example_str_of_def py_str_huge)
  from t1 h1 have "jobs (stop_selected_job False example_str_of [0] example_running_app)
      = (jobs example_running_app)[0 := (jobs example_running_app ! 0)
                    \<lparr>process := (process (jobs example_running_app ! 0))\<lparr>terminated := True\<rparr>,
                     status := ''Stopped''\<rparr>]" by simp
  then have c1: "jobs (stop_selected_job False example_str_of [0] example_running_app)
       = [example_job (example_process True True) [] ''Stopped'']" by (simp add: ex_defs)
  from t1 h1 have "log_text (stop_selected_job False example_str_of [0] example_running_app) =
          log_text example_running_app @
            [case format_value example_str_of (job_list_id (jobs example_running_app ! 0)) of
               Inr lid \<Rightarrow> ''Stopped job for folder: '' @ folder (jobs example_running_app ! 0) @
                           '' (List ID: '' @ lid @ '')''
             | Inl e \<Rightarrow> ''Failed to stop job for folder: '' @ folder (jobs example_running_app ! 0)]"
    by simp
  then have c1l: "log_text (stop_selected_job False example_str_of [0] example_running_app)
       = [''Stopped job for folder: /data/a (List ID: L1)'']"
    by (simp only: f1) (simp add: ex_defs)
  from t4 h5 have "jobs (stop_selected_job False example_str_of [0] ?h)
      = (jobs ?h)[0 := (jobs ?h ! 0)
                    \<lparr>process := (process (jobs ?h ! 0))\<lparr>terminated := True\<rparr>,
                     status := ''Stopped''\<rparr>]" by simp
  then have c6: "jobs (stop_selected_job False example_str_of [0] ?h)
       = [(example_job (example_process True True) [] ''Stopped'')\<lparr>job_list_id := JInt huge_int\<rparr>]"
    by (simp add: ex_defs)
  from t4 h5 have "log_text (stop_selected_job False example_str_of [0] ?h) =
          log_text ?h @
            [case format_value example_str_of (job_list_id (jobs ?h ! 0)) of
               Inr lid \<Rightarrow> ''Stopped job for folder: '' @ folder (jobs ?h ! 0) @
                           '' (List ID: '' @ lid @ '')''
             | Inl e \<Rightarrow> ''Failed to stop job for folder: '' @ folder (jobs ?h ! 0)]"
    by simp
  then have c6l: "log_text (stop_selected_job False example_str_of [0] ?h)
       = [''Failed to stop job for folder: /data/a'']"
    by (simp only: f5) (simp add: ex_defs)
  from t3 h1 have c5: "jobs (stop_selected_job True example_str_of [0] example_running_app)
      = jobs example_running_app" by simp
  from t2 h2 have "jobs (stop_selected_job False example_str_of [0] ?d) = jobs ?d" by simp
  then have c2: "jobs (stop_selected_job False example_str_of [0] ?d)
       = [example_job (example_process False False) [] ''Uploading...'']" by (simp add: ex_defs)
  from t1 have "jobs (stop_upload never_raises example_running_app) =
        map (\<lambda>j. if is_alive (process j) \<and> \<not> never_raises j
                  then j\<lparr>process := (process j)\<lparr>terminated := True\<rparr>, status := ''Stopped''\<rparr>
                  else j) (jobs example_running_app)" by blast
  then have c3: "jobs (stop_upload never_raises example_running_app)
       = [example_job (example_process True True) [] ''Stopped'']" by (simp add: ex_defs)
  from t1 h3 have "log_text (stop_upload never_raises example_running_app) =
          log_text example_running_app @
            [''Stopped '' @
             str_nat (length (filter (\<lambda>j. is_alive (process j) \<and> \<not> never_raises j)
                (jobs example_running_app))) @
             '' running upload job(s)'']" by blast
  then have c3l: "log_text (stop_upload never_raises example_running_app)
       = [''Stopped 1 running upload job(s)'']"
    by (simp add: ex_defs str_nat.simps [of "Suc 0"] digit_char_def)
  from t3 h4 have "stop_upload always_raises example_running_app
      = example_running_app\<lparr>log_text := log_text example_running_app @ [''No running jobs to stop.'']\<rparr>"
    by blast
  then have c4: "stop_upload always_raises example_running_app
       = example_running_app\<lparr>log_text := [''No running jobs to stop.'']\<rparr>"
    by (simp add: ex_defs)
  from h1 h2 h3 h4 c1 c1l c2 c3 c3l c4 c5 c6 c6l show ?thesis by blast
qed

text \<open>
  C6 as stated (cancel decides on the status: Running is stopped, a terminal status is left
  alone) fails in both directions. A job whose success status has been drained while its
  worker is still alive is in a terminal status, and cancel overwrites it with
  \<open>Stopped\<close> and signals the worker. A job whose worker has exited before its messages
  were drained still has the running status, and cancel neither signals nor stops it.
\<close>

theorem cancel_by_status_counterexample:
  "status (jobs (run [WorkerPut 0 (Status ''Upload completed successfully!''), Poll]
             example_running_app) ! 0) = ''Upload completed successfully!''
   \<and> jobs (run [WorkerPut 0 (Status ''Upload completed successfully!''), Poll,
               StopSelected False example_str_of [0]] example_running_app)
       = [example_job (example_process True True) [] ''Stopped'']
   \<and> status (jobs (run [WorkerExit 0] example_running_app) ! 0) = ''Uploading...''
   \<and> jobs (run [WorkerExit 0, StopSelected False example_str_of [0]] example_running_app)
       = [example_job (example_process False False) [] ''Uploading...'']"
  by (simp add: ex_defs monitor_all_outputs_def stop_selected_job_def terminate_def Let_def
      format_value_def)

section \<open>Pruning\<close>




section \<open>The status field over time\<close>

text \<open>
  C3 as the source has it. A launched job starts with the running status
  \<open>Uploading...\<close>. Along any interleaving of polls, Stop All, Stop Selected Job, workers
  putting messages and workers exiting, the jobs tracked at the end are, in order, later
  states of some of the jobs tracked at the start (\<open>list_emb later\<close>: the others were
  pruned), and none of them has gone from another status back to the running status. The
  one assumption is that no status message carries the text \<open>Uploading...\<close>, which holds
  of every message \<open>run_upload_mp\<close> puts. The theorem does not say that a status other
  than running stays what it is.
\<close>

theorem status_never_back_to_running:
  "((\<forall>j \<in> set (jobs a). queue_ok j) \<and> (\<forall>e \<in> set es. worker_event_ok e) \<longrightarrow>
      list_emb later (jobs (run es a)) (jobs a))
   \<and> Status ''Uploading...'' \<notin> set (run_upload_mp py ar p)
   \<and> (selected_folder f \<noteq> [] \<and> path_exists (selected_folder f) \<longrightarrow>
        jobs (launch_upload_job path_exists (Some sp) f a) \<noteq> []
        \<and> status (last (jobs (launch_upload_job path_exists (Some sp) f a))) = ''Uploading...''
        \<and> queue (last (jobs (launch_upload_job path_exists (Some sp) f a))) = [])"
  using run_later [of a es] run_upload_mp_no_running [of py ar p]
    launch_jobs [of f path_exists sp a]
  by blast

theorem status_never_back_to_running_witness:
  "list_all queue_ok (jobs example_running_app)
   \<and> list_all worker_event_ok
        [WorkerPut 0 (Status ''Upload completed successfully!''), Poll,
         StopAll never_raises, WorkerExit 0, Poll]
   \<and> jobs (run [WorkerPut 0 (Status ''Upload completed successfully!''), Poll,
               StopAll never_raises, WorkerExit 0, Poll] example_running_app)
       = [example_job (example_process False True) [] ''Stopped'']
   \<and> list_emb later
        (jobs (run [WorkerPut 0 (Status ''Upload completed successfully!''), Poll,
                    StopAll never_raises, WorkerExit 0, Poll] example_running_app))
        (jobs example_running_app)
   \<and> list_emb later [example_job (example_process False True) [] ''Stopped'']
        [example_job (example_process True False) [] ''Uploading...'']
   \<and> selected_folder example_form \<noteq> []
   \<and> example_path_exists (selected_folder example_form)
   \<and> status (last (jobs (launch_upload_job example_path_exists (Some ''/opt/folder_uploader.py'')
        example_form example_running_app))) = ''Uploading...''"
proof -
  let ?es = "[WorkerPut 0 (Status ''Upload completed successfully!''), Poll,
                  StopAll never_raises, WorkerExit 0, Poll]"
  note t = status_never_back_to_running [where a = example_running_app and es = ?es
      and py = "''python3''" and ar = example_args and p = "Exits [] 0" and f = example_form
      and path_exists = example_path_exists and sp = "''/opt/folder_uploader.py''"]
  have h1: "\<forall>j \<in> set (jobs example_running_app). queue_ok j"
    by (simp add: ex_defs queue_ok_def)
  have h2: "\<forall>e \<in> set ?es. worker_event_ok e" by simp
  have h3: "selected_folder example_form \<noteq> []" by (simp add: example_form_def)
  have h4: "example_path_exists (selected_folder example_form)"
    by (simp add: example_form_def example_path_exists_def)
  have r: "jobs (run ?es example_running_app)
       = [example_job (example_process False True) [] ''Stopped'']"
    by (simp add: ex_defs monitor_all_outputs_def stop_upload_def terminate_def Let_def)
  have i: "jobs example_running_app = [example_job (example_process True False) [] ''Uploading...'']"
    by (simp add: example_running_app_def example_app_def)
  from t h1 h2 have c1: "list_emb later (jobs (run ?es example_running_app)) (jobs example_running_app)"
    by blast
  then have c3: "list_emb later [example_job (example_process False True) [] ''Stopped'']
        [example_job (example_process True False) [] ''Uploading...'']"
    by (simp only: r i)
  from t h3 h4 have c2: "status (last (jobs (launch_upload_job example_path_exists
      (Some ''/opt/folder_uploader.py'') example_form example_running_app))) = ''Uploading...''"
    by blast
  from h1 h2 have "list_all queue_ok (jobs example_running_app)" "list_all worker_event_ok ?es"
    by (simp_all only: list_all_iff)
  with h3 h4 c1 c2 c3 r show ?thesis by blast
qed

text \<open>
  C3 as stated (a terminal status is never changed again) fails. The success status is
  replaced by the \<open>Finished\<close> mark when the \<open>finished\<close> message is drained. And a job
  that Stop All has set to \<open>Stopped\<close> takes the status of a message that was already
  waiting in its queue at the next poll.
\<close>

theorem terminal_status_overwritten_counterexample:
  "jobs (run [WorkerPut 0 (Status ''Upload completed successfully!''), Poll] example_running_app)
     = [example_job (example_process True False) [] ''Upload completed successfully!'']
   \<and> jobs (run [WorkerPut 0 (Status ''Upload completed successfully!''), Poll,
               WorkerPut 0 Finished, Poll] example_running_app)
     = [example_job (example_process True False) [] ''Finished'']
   \<and> jobs (run [WorkerPut 0 (Status ''Upload failed with code 1''), StopAll never_raises]
        example_running_app)
     = [example_job (example_process True True) [Status ''Upload failed with code 1''] ''Stopped'']
   \<and> jobs (run [WorkerPut 0 (Status ''Upload failed with code 1''), StopAll never_raises, Poll]
        example_running_app)
     = [example_job (example_process True True) [] ''Upload failed with code 1'']"
  by (simp add: ex_defs monitor_all_outputs_def stop_upload_def terminate_def Let_def)

end
